theory Spec2Isabelle
  imports Complex_Main
begin

section \<open>Python values and errors\<close>

text \<open>
  The exceptions the modelled code of \<^verbatim>\<open>nmt.py\<close> can raise. A function that can raise
  returns \<open>error + 'a\<close>, with \<open>Inl\<close> for the exception.
\<close>

datatype error =
    ValueError
  | IndexError
  | TypeError
  | KeyError
  | AttributeError
  | ZeroDivisionError
  | FileNotFoundError
  | AssertionError

text \<open>
  Python's \<^verbatim>\<open>max(xs)\<close> on a list: \<^verbatim>\<open>ValueError\<close> on the empty list, otherwise a
  left-to-right scan that replaces the running maximum by a strictly greater item.
\<close>

definition py_max :: "('a::linorder) list \<Rightarrow> error + 'a" where
  "py_max xs =
     (case xs of
        [] \<Rightarrow> Inl ValueError
      | x # rest \<Rightarrow> Inr (fold (\<lambda>item m. if m < item then item else m) rest x))"

text \<open>The slices \<^verbatim>\<open>xs[:-1]\<close>, \<^verbatim>\<open>xs[1:]\<close> and \<^verbatim>\<open>xs[1:-1]\<close>, total on every list.\<close>

definition slice_to_last :: "'a list \<Rightarrow> 'a list" where
  "slice_to_last xs = take (length xs - 1) xs"

definition slice_from_1 :: "'a list \<Rightarrow> 'a list" where
  "slice_from_1 xs = drop 1 xs"

definition slice_1_to_last :: "'a list \<Rightarrow> 'a list" where
  "slice_1_to_last xs = drop 1 (take (length xs - 1) xs)"

section \<open>The batch padder \<^verbatim>\<open>sent_padding\<close>\<close>

text \<open>
  Sentences are lists of vocabulary indices (Python integers). A matrix is the list of its
  rows. \<^verbatim>\<open>np.zeros((b, w))\<close> is \<open>b\<close> rows of \<open>w\<close> zeros. The cells are 64-bit floats
  and the final \<^verbatim>\<open>torch.LongTensor(...)\<close> turns them into 64-bit integers; both steps are
  exact on vocabulary indices (integers of magnitude below \<open>2^53\<close>), so the model keeps
  every entry as the integer it is. \<^verbatim>\<open>to_cuda\<close> moves the tensor and changes no entry.
\<close>

type_synonym sentence = "int list"
type_synonym matrix = "int list list"

definition np_zeros :: "nat \<Rightarrow> nat \<Rightarrow> matrix" where
  "np_zeros b w = replicate b (replicate w 0)"

text \<open>
  The assignment \<^verbatim>\<open>row[:n] = xs\<close> of numpy: the slice has \<open>min n (length row)\<close> cells;
  \<open>xs\<close> must have that many items, or exactly one item (which is broadcast); any other
  shape raises \<^verbatim>\<open>ValueError\<close>.
\<close>

definition assign_prefix :: "int list \<Rightarrow> nat \<Rightarrow> int list \<Rightarrow> error + int list" where
  "assign_prefix row n xs =
     (let k = min n (length row) in
      if length xs = k then Inr (xs @ drop k row)
      else if length xs = 1 then Inr (replicate k (hd xs) @ drop k row)
      else Inl ValueError)"

text \<open>\<^verbatim>\<open>M[i, :n] = xs\<close>: row \<open>i\<close> must exist.\<close>

definition set_row_prefix :: "matrix \<Rightarrow> nat \<Rightarrow> nat \<Rightarrow> int list \<Rightarrow> error + matrix" where
  "set_row_prefix M i n xs =
     (if i < length M then
        (case assign_prefix (M ! i) n xs of
           Inl e \<Rightarrow> Inl e
         | Inr r \<Rightarrow> Inr (M[i := r]))
      else Inl IndexError)"

record pad_state =
  padded_src_sents :: matrix
  padded_Yinput :: matrix
  padded_Ytarget :: matrix
  src_lens :: "nat list"
  tgt_lens :: "nat list"

text \<open>
  The body of \<^verbatim>\<open>for i, sent in enumerate(zip(src_sents, tgt_sents))\<close>, one pair at a time;
  \<open>i\<close> is the index \<^verbatim>\<open>enumerate\<close> supplies.
\<close>

fun pad_loop :: "nat \<Rightarrow> (sentence \<times> sentence) list \<Rightarrow> pad_state \<Rightarrow> error + pad_state" where
  "pad_loop i [] st = Inr st"
| "pad_loop i (sent # rest) st =
     (let src_sent = fst sent;
          y_input = slice_to_last (snd sent);
          y_target = slice_from_1 (snd sent);
          src_len = length src_sent;
          tgt_len = length y_input
      in case set_row_prefix (padded_src_sents st) i src_len src_sent of
           Inl e \<Rightarrow> Inl e
         | Inr ps \<Rightarrow>
             (case set_row_prefix (padded_Yinput st) i tgt_len y_input of
                Inl e \<Rightarrow> Inl e
              | Inr pin \<Rightarrow>
                  (case set_row_prefix (padded_Ytarget st) i tgt_len y_target of
                     Inl e \<Rightarrow> Inl e
                   | Inr ptg \<Rightarrow>
                       pad_loop (Suc i) rest
                         \<lparr>padded_src_sents = ps, padded_Yinput = pin, padded_Ytarget = ptg,
                          src_lens = src_lens st @ [src_len],
                          tgt_lens = tgt_lens st @ [tgt_len]\<rparr>)))"

text \<open>
  \<^verbatim>\<open>sent_padding(src_sents, tgt_sents)\<close>. The result is the tuple
  (source matrix, source lengths, decoder input, decoder target, target lengths).
\<close>

definition sent_padding ::
  "sentence list \<Rightarrow> sentence list \<Rightarrow> error + (matrix \<times> nat list \<times> matrix \<times> matrix \<times> nat list)" where
  "sent_padding src_sents tgt_sents =
     (let batch_size = length src_sents in
      case py_max (map length src_sents) of
        Inl e \<Rightarrow> Inl e
      | Inr max_src_len \<Rightarrow>
          (case py_max (map length tgt_sents) of
             Inl e \<Rightarrow> Inl e
           | Inr max_tgt_len \<Rightarrow>
               (case pad_loop 0 (zip src_sents tgt_sents)
                       \<lparr>padded_src_sents = np_zeros batch_size max_src_len,
                        padded_Yinput = np_zeros batch_size max_tgt_len,
                        padded_Ytarget = np_zeros batch_size max_tgt_len,
                        src_lens = [], tgt_lens = []\<rparr> of
                  Inl e \<Rightarrow> Inl e
                | Inr st \<Rightarrow>
                    Inr (padded_src_sents st, src_lens st, padded_Yinput st,
                         padded_Ytarget st, tgt_lens st))))"

text \<open>A sentence followed by zeros up to width \<open>w\<close>: the shape of a padded row.\<close>

definition pad_row :: "nat \<Rightarrow> int list \<Rightarrow> int list" where
  "pad_row w xs = xs @ replicate (w - length xs) 0"

section \<open>Checkpoints of the translation model\<close>

text \<open>
  The file system, as far as checkpoints go: a file name gives the state dict (of type
  \<open>'p\<close>) stored under it. \<^verbatim>\<open>torch.load\<close> of a name that is absent raises
  \<^verbatim>\<open>FileNotFoundError\<close>.
\<close>

type_synonym 'p fs = "string \<Rightarrow> 'p option"

definition torch_load :: "'p fs \<Rightarrow> string \<Rightarrow> error + 'p" where
  "torch_load files path =
     (case files path of None \<Rightarrow> Inl FileNotFoundError | Some sd \<Rightarrow> Inr sd)"

text \<open>
  The part of an \<^verbatim>\<open>NMT\<close> object the training loop acts on: the parameters of the two
  sub-networks, whether each is in evaluation mode, and how often the learning-rate
  scheduler has stepped.
\<close>

record 'p NMT =
  encoder :: 'p
  decoder :: 'p
  encoder_eval :: bool
  decoder_eval :: bool
  scheduler_steps :: nat

text \<open>
  \<^verbatim>\<open>NMT.load(self, model_path)\<close>. An exception leaves the object as it was mutated so
  far, so the object is returned beside the exception.
\<close>

definition NMT_load :: "'p fs \<Rightarrow> 'p NMT \<Rightarrow> string \<Rightarrow> error option \<times> 'p NMT" where
  "NMT_load files self model_path =
     (case torch_load files (model_path @ ''-encoder'') of
        Inl e \<Rightarrow> (Some e, self)
      | Inr sd_enc \<Rightarrow>
          (let self = self\<lparr>encoder := sd_enc\<rparr> in
           case torch_load files (model_path @ ''-decoder'') of
             Inl e \<Rightarrow> (Some e, self)
           | Inr sd_dec \<Rightarrow>
               (None, self\<lparr>decoder := sd_dec, encoder_eval := True, decoder_eval := True\<rparr>)))"

text \<open>\<^verbatim>\<open>NMT.save(self, model_save_path)\<close>: two files are written.\<close>

definition NMT_save :: "'p fs \<Rightarrow> 'p NMT \<Rightarrow> string \<Rightarrow> 'p fs" where
  "NMT_save files self model_save_path =
     (files(model_save_path @ ''-encoder'' \<mapsto> encoder self))
       (model_save_path @ ''-decoder'' \<mapsto> decoder self)"

text \<open>
  \<^verbatim>\<open>NMT.__init__\<close>: the sub-networks are built by the external constructors (their fresh
  parameters are \<open>fresh_enc\<close> and \<open>fresh_dec\<close>), and with \<^verbatim>\<open>keep_train\<close> the
  parameters are then loaded from the literal path \<^verbatim>\<open>'model'\<close>.
\<close>

definition NMT_init :: "'p \<Rightarrow> 'p \<Rightarrow> bool \<Rightarrow> 'p fs \<Rightarrow> error + 'p NMT" where
  "NMT_init fresh_enc fresh_dec keep_train files =
     (let self = \<lparr>encoder = fresh_enc, decoder = fresh_dec, encoder_eval = False,
                  decoder_eval = False, scheduler_steps = 0\<rparr>
      in if keep_train then
           (case NMT_load files self ''model'' of
              (Some e, _) \<Rightarrow> Inl e
            | (None, self) \<Rightarrow> Inr self)
         else Inr self)"

section \<open>The corpus-level scorer\<close>

text \<open>
  \<^verbatim>\<open>compute_corpus_level_bleu_score(references, hypotheses)\<close>. Tokens are words. The BLEU
  computation itself is the external \<^verbatim>\<open>corpus_bleu\<close> of nltk, a parameter here; it
  receives one singleton list of references per sentence. Reading \<^verbatim>\<open>references[0][0]\<close>
  raises \<^verbatim>\<open>IndexError\<close> when there is no reference or the first one is empty.
\<close>

definition compute_corpus_level_bleu_score ::
  "(string list list list \<Rightarrow> 'h \<Rightarrow> error + 'r) \<Rightarrow> string list list \<Rightarrow> 'h \<Rightarrow> error + 'r" where
  "compute_corpus_level_bleu_score corpus_bleu references hypotheses =
     (case references of
        [] \<Rightarrow> Inl IndexError
      | ref0 # _ \<Rightarrow>
          (case ref0 of
             [] \<Rightarrow> Inl IndexError
           | tok # _ \<Rightarrow>
               (let references =
                      (if tok = ''<s>'' then map slice_1_to_last references else references)
                in corpus_bleu (map (\<lambda>ref. [ref]) references) hypotheses)))"

section \<open>Decoding\<close>

text \<open>The named tuple \<^verbatim>\<open>Hypothesis(value, score)\<close>.\<close>

record hypothesis =
  hyp_value :: "string list"
  hyp_score :: real

text \<open>
  The Python values that flow through \<^verbatim>\<open>decode\<close>: \<^verbatim>\<open>None\<close>, an integer, a string, an
  \<^verbatim>\<open>NMT\<close> object, one hypothesis, a list of hypotheses.
\<close>

datatype 'p pyval =
    PyNone
  | PyInt int
  | PyStr string
  | PyModel "'p NMT"
  | PyHyp hypothesis
  | PyHyps "hypothesis list"

text \<open>
  The method \<^verbatim>\<open>NMT.beam_search\<close>: its body is \<^verbatim>\<open>hypotheses = 0; return hypotheses\<close>.
\<close>

definition NMT_beam_search :: "'p NMT \<Rightarrow> string list \<Rightarrow> int \<Rightarrow> int \<Rightarrow> 'p pyval" where
  "NMT_beam_search self src_sent beam_size max_decoding_time_step =
     (let hypotheses = PyInt 0 in hypotheses)"

text \<open>
  A call binds its positional arguments to the parameters one by one; a missing or a
  surplus argument raises \<^verbatim>\<open>TypeError\<close>.
\<close>

definition bind_args :: "string list \<Rightarrow> 'v list \<Rightarrow> error + (string \<times> 'v) list" where
  "bind_args params actuals =
     (if length actuals = length params then Inr (zip params actuals) else Inl TypeError)"

text \<open>
  \<^verbatim>\<open>NMT.load\<close> called as a plain function of the class, with the list of actual
  arguments: its parameters are \<^verbatim>\<open>self\<close> and \<^verbatim>\<open>model_path\<close>. The body needs an
  \<^verbatim>\<open>NMT\<close> object as \<^verbatim>\<open>self\<close> (anything else has no \<^verbatim>\<open>encoder\<close>) and a string as
  \<^verbatim>\<open>model_path\<close>; it ends without a \<^verbatim>\<open>return\<close>, so its value is \<^verbatim>\<open>None\<close>.
\<close>

definition NMT_load_call :: "'p fs \<Rightarrow> 'p pyval list \<Rightarrow> error + 'p pyval" where
  "NMT_load_call disk actuals =
     (case bind_args [''self'', ''model_path''] actuals of
        Inl e \<Rightarrow> Inl e
      | Inr bound \<Rightarrow>
          (case (map_of bound ''self'', map_of bound ''model_path'') of
             (Some (PyModel self), Some (PyStr model_path)) \<Rightarrow>
               (case NMT_load disk self model_path of
                  (Some e, _) \<Rightarrow> Inl e
                | (None, _) \<Rightarrow> Inr PyNone)
           | (Some (PyModel self), _) \<Rightarrow> Inl TypeError
           | _ \<Rightarrow> Inl AttributeError))"

text \<open>
  \<^verbatim>\<open>model.training\<close>: the class \<^verbatim>\<open>NMT\<close> derives from \<^verbatim>\<open>object\<close> and never sets this
  attribute, and no other value has it.
\<close>

definition get_training :: "'p pyval \<Rightarrow> error + bool" where
  "get_training model = Inl AttributeError"

text \<open>\<^verbatim>\<open>model.beam_search(src_sent, ...)\<close>: only an \<^verbatim>\<open>NMT\<close> object has the method.\<close>

definition call_beam_search :: "'p pyval \<Rightarrow> string list \<Rightarrow> int \<Rightarrow> int \<Rightarrow> error + 'p pyval" where
  "call_beam_search model src_sent beam_size max_decoding_time_step =
     (case model of
        PyModel self \<Rightarrow> Inr (NMT_beam_search self src_sent beam_size max_decoding_time_step)
      | _ \<Rightarrow> Inl AttributeError)"

text \<open>A list comprehension or loop whose body can raise: the first exception ends it.\<close>

fun map_err :: "('a \<Rightarrow> error + 'b) \<Rightarrow> 'a list \<Rightarrow> error + 'b list" where
  "map_err f [] = Inr []"
| "map_err f (x # xs) =
     (case f x of
        Inl e \<Rightarrow> Inl e
      | Inr y \<Rightarrow> (case map_err f xs of Inl e \<Rightarrow> Inl e | Inr ys \<Rightarrow> Inr (y # ys)))"

text \<open>The module-level \<^verbatim>\<open>beam_search(model, test_data_src, beam_size, max_decoding_time_step)\<close>.\<close>

definition beam_search ::
  "'p pyval \<Rightarrow> string list list \<Rightarrow> int \<Rightarrow> int \<Rightarrow> error + 'p pyval list" where
  "beam_search model test_data_src beam_size max_decoding_time_step =
     (case get_training model of
        Inl e \<Rightarrow> Inl e
      | Inr was_training \<Rightarrow>
          map_err (\<lambda>src_sent. call_beam_search model src_sent beam_size max_decoding_time_step)
            test_data_src)"

text \<open>\<^verbatim>\<open>hyps[0]\<close> and \<^verbatim>\<open>top_hyp.value\<close>.\<close>

definition first_hyp :: "'p pyval \<Rightarrow> error + 'p pyval" where
  "first_hyp hyps =
     (case hyps of
        PyHyps [] \<Rightarrow> Inl IndexError
      | PyHyps (h # _) \<Rightarrow> Inr (PyHyp h)
      | PyStr [] \<Rightarrow> Inl IndexError
      | PyStr (c # _) \<Rightarrow> Inr (PyStr [c])
      | _ \<Rightarrow> Inl TypeError)"

definition get_value :: "'p pyval \<Rightarrow> error + string list" where
  "get_value top_hyp =
     (case top_hyp of PyHyp h \<Rightarrow> Inr (hyp_value h) | _ \<Rightarrow> Inl AttributeError)"

text \<open>\<^verbatim>\<open>sep.join(words)\<close>.\<close>

fun py_join :: "string \<Rightarrow> string list \<Rightarrow> string" where
  "py_join sep [] = []"
| "py_join sep [w] = w"
| "py_join sep (w # v # ws) = w @ sep @ py_join sep (v # ws)"

text \<open>What \<^verbatim>\<open>decode\<close> produces, in order.\<close>

datatype 'r produced =
    LoadMessage string
  | BleuMessage 'r
  | OpenOutput string
  | WriteOutput string string

record decode_args =
  MODEL_PATH :: string
  TEST_SOURCE_FILE :: string
  TEST_TARGET_FILE :: "string option"
  OUTPUT_FILE :: string
  arg_beam_size :: int
  arg_max_decoding_time_step :: int

text \<open>The loop that writes one line per source sentence to the opened output file.\<close>

fun write_hyps :: "string \<Rightarrow> 'p pyval list \<Rightarrow> 'r produced list \<times> error option" where
  "write_hyps path [] = ([], None)"
| "write_hyps path (hyps # rest) =
     (case first_hyp hyps of
        Inl e \<Rightarrow> ([], Some e)
      | Inr top_hyp \<Rightarrow>
          (case get_value top_hyp of
             Inl e \<Rightarrow> ([], Some e)
           | Inr v \<Rightarrow>
               (let hyp_sent = py_join '' '' v;
                    r = write_hyps path rest
                in (WriteOutput path (hyp_sent @ [CHR 0x0A]) # fst r, snd r))))"

text \<open>
  \<^verbatim>\<open>decode(args)\<close>. \<open>read_corpus\<close> (external) reads a tokenised corpus; \<open>corpus_bleu\<close> is
  nltk's; \<open>disk\<close> holds the checkpoints. The result is what was produced and the
  exception that ended the call, if any.
\<close>

definition decode ::
  "(string \<Rightarrow> bool \<Rightarrow> error + string list list) \<Rightarrow>
   (string list list list \<Rightarrow> 'p pyval list \<Rightarrow> error + 'r) \<Rightarrow>
   'p fs \<Rightarrow> decode_args \<Rightarrow> 'r produced list \<times> error option" where
  "decode read_corpus corpus_bleu disk args =
     (case read_corpus (TEST_SOURCE_FILE args) False of
        Inl e \<Rightarrow> ([], Some e)
      | Inr test_data_src \<Rightarrow>
          (case (case TEST_TARGET_FILE args of
                   None \<Rightarrow> Inr None
                 | Some t \<Rightarrow>
                     (if t = [] then Inr None
                      else (case read_corpus t True of
                              Inl e \<Rightarrow> Inl e
                            | Inr d \<Rightarrow> Inr (Some d)))) of
             Inl e \<Rightarrow> ([], Some e)
           | Inr test_data_tgt \<Rightarrow>
               (let out = [LoadMessage (MODEL_PATH args)] in
                case NMT_load_call disk [PyStr (MODEL_PATH args)] of
                  Inl e \<Rightarrow> (out, Some e)
                | Inr model \<Rightarrow>
                    (case beam_search model test_data_src (arg_beam_size args)
                            (arg_max_decoding_time_step args) of
                       Inl e \<Rightarrow> (out, Some e)
                     | Inr hypotheses \<Rightarrow>
                         (case (case test_data_tgt of
                                  None \<Rightarrow> Inr out
                                | Some tgt \<Rightarrow>
                                    (case map_err first_hyp hypotheses of
                                       Inl e \<Rightarrow> Inl e
                                     | Inr top_hypotheses \<Rightarrow>
                                         (case compute_corpus_level_bleu_score corpus_bleu tgt
                                                 top_hypotheses of
                                            Inl e \<Rightarrow> Inl e
                                          | Inr bleu_score \<Rightarrow> Inr (out @ [BleuMessage bleu_score])))) of
                            Inl e \<Rightarrow> (out, Some e)
                          | Inr out \<Rightarrow>
                              (let w = write_hyps (OUTPUT_FILE args)
                                         (map snd (zip test_data_src hypotheses))
                               in (out @ OpenOutput (OUTPUT_FILE args) # fst w, snd w)))))))"

section \<open>Validation: \<^verbatim>\<open>evaluate_ppl\<close>\<close>

text \<open>Python list indexing and item assignment: a negative index counts from the end.\<close>

definition py_getitem :: "'a list \<Rightarrow> int \<Rightarrow> error + 'a" where
  "py_getitem xs i =
     (let n = int (length xs); j = (if i < 0 then i + n else i)
      in if 0 \<le> j \<and> j < n then Inr (xs ! nat j) else Inl IndexError)"

definition py_setitem :: "'a list \<Rightarrow> int \<Rightarrow> 'a \<Rightarrow> error + 'a list" where
  "py_setitem xs i v =
     (let n = int (length xs); j = (if i < 0 then i + n else i)
      in if 0 \<le> j \<and> j < n then Inr (xs[nat j := v]) else Inl IndexError)"

text \<open>
  A batch as \<^verbatim>\<open>batch_iter\<close> yields it: source sentences, target sentences (both as
  words) and the original index of each sentence pair.
\<close>

type_synonym batch = "string list list \<times> string list list \<times> int list"

text \<open>
  The collaborators of \<^verbatim>\<open>evaluate_ppl\<close> that are not part of \<^verbatim>\<open>nmt.py\<close>:
  \<^verbatim>\<open>batch_iter\<close> of \<^verbatim>\<open>utils\<close>, the two \<^verbatim>\<open>words2indices\<close> and the dictionary
  \<^verbatim>\<open>id2word\<close> of the vocabulary, the networks (\<^verbatim>\<open>encode\<close> followed by
  \<^verbatim>\<open>decode_without_bp\<close>, from a padded batch to the loss and the matrix of predicted
  symbols, one row per sentence), and \<^verbatim>\<open>corpus_bleu\<close> of nltk. The loss is a real number
  here; the rounding of floating-point arithmetic is outside the model.
\<close>

record 'd collaborators =
  batch_iter :: "'d \<Rightarrow> nat \<Rightarrow> batch list"
  src_words2indices :: "string list list \<Rightarrow> sentence list"
  tgt_words2indices :: "string list list \<Rightarrow> sentence list"
  encode_decode_without_bp ::
    "matrix \<times> nat list \<times> matrix \<times> matrix \<times> nat list \<Rightarrow> real \<times> matrix"
  tgt_id2word :: "int \<Rightarrow> string option"
  nltk_corpus_bleu :: "string list list list \<Rightarrow> string list list \<Rightarrow> error + real"

text \<open>
  The words of one row of symbols: the loop stops at the first symbol 2, and looking up a
  symbol that the dictionary lacks raises \<^verbatim>\<open>KeyError\<close>.
\<close>

fun sent_words :: "(int \<Rightarrow> string option) \<Rightarrow> int list \<Rightarrow> error + string list" where
  "sent_words id2word [] = Inr []"
| "sent_words id2word (idx # rest) =
     (if idx = 2 then Inr []
      else (case id2word idx of
              None \<Rightarrow> Inl KeyError
            | Some w \<Rightarrow>
                (case sent_words id2word rest of
                   Inl e \<Rightarrow> Inl e
                 | Inr word_seq \<Rightarrow> Inr (w # word_seq))))"

text \<open>
  \<^verbatim>\<open>for sent in symbols\<close>: the words of each row are appended to \<^verbatim>\<open>hyp_corpus\<close> and
  stored in \<^verbatim>\<open>batch_hyp_orderd\<close> at the original index of the row; \<open>None\<close> is Python's
  \<^verbatim>\<open>None\<close>, the initial content of every cell.
\<close>

fun hyp_loop ::
  "(int \<Rightarrow> string option) \<Rightarrow> int list \<Rightarrow> nat \<Rightarrow> int list list \<Rightarrow> string list list \<Rightarrow>
   string list option list \<Rightarrow> error + (string list list \<times> string list option list)" where
  "hyp_loop id2word orig_indices index [] hyp_corpus batch_hyp_orderd =
     Inr (hyp_corpus, batch_hyp_orderd)"
| "hyp_loop id2word orig_indices index (sent # rest) hyp_corpus batch_hyp_orderd =
     (case sent_words id2word sent of
        Inl e \<Rightarrow> Inl e
      | Inr word_seq \<Rightarrow>
          (case py_getitem orig_indices (int index) of
             Inl e \<Rightarrow> Inl e
           | Inr pos \<Rightarrow>
               (case py_setitem batch_hyp_orderd pos (Some word_seq) of
                  Inl e \<Rightarrow> Inl e
                | Inr ordered \<Rightarrow>
                    hyp_loop id2word orig_indices (Suc index) rest
                      (hyp_corpus @ [word_seq]) ordered)))"

record eval_state =
  ref_corpus :: "string list list"
  hyp_corpus :: "string list list"
  cum_loss :: real
  batch_count :: nat
  hyp_corpus_ordered :: "string list option list"

text \<open>The loop over the batches; \<open>batch_count\<close> is the variable \<^verbatim>\<open>count\<close>.\<close>

fun batch_loop :: "'d collaborators \<Rightarrow> batch list \<Rightarrow> eval_state \<Rightarrow> error + eval_state" where
  "batch_loop env [] st = Inr st"
| "batch_loop env ((src_sents, tgt_sents, orig_indices) # rest) st =
     (let refs = ref_corpus st @ tgt_sents;
          src_idx = src_words2indices env src_sents;
          tgt_idx = tgt_words2indices env tgt_sents
      in case sent_padding src_idx tgt_idx of
           Inl e \<Rightarrow> Inl e
         | Inr padded \<Rightarrow>
             (let scores = fst (encode_decode_without_bp env padded);
                  symbols = snd (encode_decode_without_bp env padded)
              in case hyp_loop (tgt_id2word env) orig_indices 0 symbols (hyp_corpus st)
                        (replicate (length symbols) None) of
                   Inl e \<Rightarrow> Inl e
                 | Inr (hyps, batch_hyp_orderd) \<Rightarrow>
                     batch_loop env rest
                       \<lparr>ref_corpus = refs, hyp_corpus = hyps,
                        cum_loss = cum_loss st + scores,
                        batch_count = batch_count st + 1,
                        hyp_corpus_ordered = hyp_corpus_ordered st @ batch_hyp_orderd\<rparr>))"

text \<open>
  \<^verbatim>\<open>for r, h in zip(ref_corpus, hyp_corpus_ordered): f.write(" ".join(h) + '\n')\<close> on the
  content of the file so far; joining \<^verbatim>\<open>None\<close> raises \<^verbatim>\<open>TypeError\<close>, and what was
  written before stays written.
\<close>

fun write_lines ::
  "string \<Rightarrow> (string list \<times> string list option) list \<Rightarrow> string \<times> error option" where
  "write_lines content [] = (content, None)"
| "write_lines content ((r, h) # rest) =
     (case h of
        None \<Rightarrow> (content, Some TypeError)
      | Some word_seq \<Rightarrow> write_lines (content @ py_join '' '' word_seq @ [CHR 0x0A]) rest)"

text \<open>
  \<^verbatim>\<open>NMT.evaluate_ppl(dev_data, batch_size)\<close>. \<open>texts\<close> gives the content of each text
  file; opening \<^verbatim>\<open>decode.txt\<close> in append mode creates it when absent and keeps its
  content otherwise. The result is the returned value or the exception, and the text
  files afterwards. An exception in the loop over the batches happens before the file is
  opened. The line that prints the BLEU score goes to standard output and is left out.
\<close>

definition evaluate_ppl ::
  "'d collaborators \<Rightarrow> (string \<Rightarrow> string option) \<Rightarrow> 'd \<Rightarrow> nat
     \<Rightarrow> (error + real) \<times> (string \<Rightarrow> string option)" where
  "evaluate_ppl env texts dev_data batch_size =
     (case batch_loop env (batch_iter env dev_data batch_size)
             \<lparr>ref_corpus = [], hyp_corpus = [], cum_loss = 0, batch_count = 0,
              hyp_corpus_ordered = []\<rparr> of
        Inl e \<Rightarrow> (Inl e, texts)
      | Inr st \<Rightarrow>
          (let content = (case texts ''decode.txt'' of None \<Rightarrow> [] | Some c \<Rightarrow> c);
               written = write_lines content (zip (ref_corpus st) (hyp_corpus_ordered st));
               texts = texts(''decode.txt'' \<mapsto> fst written)
           in case snd written of
                Some e \<Rightarrow> (Inl e, texts)
              | None \<Rightarrow>
                  (case compute_corpus_level_bleu_score (nltk_corpus_bleu env)
                          (ref_corpus st) (hyp_corpus st) of
                     Inl e \<Rightarrow> (Inl e, texts)
                   | Inr bleu \<Rightarrow>
                       (if batch_count st = 0 then (Inl ZeroDivisionError, texts)
                        else (Inr (cum_loss st / real (batch_count st)), texts)))))"

text \<open>
  What the statement about \<^verbatim>\<open>evaluate_ppl\<close> asks of the collaborators, for one batch: the
  batch can be padded, the networks return one row of symbols per sentence, every row can
  be turned into words, and the original indices are the numbers \<open>0, ..., n - 1\<close> in some
  order.
\<close>

definition succeeds :: "error + 'a \<Rightarrow> bool" where
  "succeeds r = (case r of Inl e \<Rightarrow> False | Inr v \<Rightarrow> True)"

definition batch_forward :: "'d collaborators \<Rightarrow> batch \<Rightarrow> real \<times> matrix" where
  "batch_forward env b =
     (case sent_padding (src_words2indices env (fst b)) (tgt_words2indices env (fst (snd b))) of
        Inl e \<Rightarrow> (0, [])
      | Inr padded \<Rightarrow> encode_decode_without_bp env padded)"

definition well_formed_batch :: "'d collaborators \<Rightarrow> batch \<Rightarrow> bool" where
  "well_formed_batch env b =
     (let n = length (fst (snd b)); orig_indices = snd (snd b) in
      succeeds (sent_padding (src_words2indices env (fst b))
                  (tgt_words2indices env (fst (snd b)))) \<and>
      length (snd (batch_forward env b)) = n \<and>
      (\<forall>sent\<in>set (snd (batch_forward env b)). succeeds (sent_words (tgt_id2word env) sent)) \<and>
      length orig_indices = n \<and>
      set orig_indices = int ` {0..<n})"

text \<open>
  \<open>restored env b hs\<close>: the list \<open>hs\<close> holds the hypotheses of batch \<open>b\<close> in original order,
  that is, the words of row \<open>i\<close> of the symbols stand at position \<open>orig_indices[i]\<close>.
\<close>

definition restored :: "'d collaborators \<Rightarrow> batch \<Rightarrow> string list list \<Rightarrow> bool" where
  "restored env b hs =
     (length hs = length (fst (snd b)) \<and>
      (\<forall>i < length (fst (snd b)).
         sent_words (tgt_id2word env) (snd (batch_forward env b) ! i)
           = Inr (hs ! nat (snd (snd b) ! i))))"

section \<open>The training loop: set-up and the validation decision\<close>

text \<open>
  The options of \<^verbatim>\<open>train\<close> that the modelled code reads, as the integers
  \<^verbatim>\<open>int(args[...])\<close> yields; \<open>save_to\<close> is the option \<^verbatim>\<open>--save-to\<close>.
\<close>

record train_args =
  arg_patience :: int
  arg_max_num_trial :: int
  arg_max_epoch :: int
  save_to :: "string option"

text \<open>What a validation does to the outside, in order.\<close>

datatype event =
    SaveCheckpoint string
  | SchedulerStep
  | LoadCheckpoint string
  | EarlyStop
  | MaxEpochReached

datatype status = Running | Exited int | Raised error

text \<open>
  The variables of \<^verbatim>\<open>train\<close> the validation decision reads and writes. The metric type
  \<open>'m\<close> is linearly ordered (the negated dev loss; a not-a-number metric is outside the
  model).
\<close>

record ('m, 'p) train_state =
  patience :: int
  num_trial :: int
  hist_valid_scores :: "'m list"
  model :: "'p NMT"
  files :: "'p fs"
  trace :: "event list"

text \<open>The local \<^verbatim>\<open>model_save_path\<close> of \<^verbatim>\<open>train\<close>: a literal, the option is commented out.\<close>

definition model_save_path :: "train_args \<Rightarrow> string" where
  "model_save_path args = ''model''"

text \<open>
  The start of \<^verbatim>\<open>train\<close>, up to the loop: the corpora and the vocabulary are read by
  external collaborators (\<open>inputs\<close> is an exception of theirs, if any), the model is
  constructed with \<^verbatim>\<open>keep_train=True\<close>, the counters start at zero.
\<close>

definition train_setup ::
  "train_args \<Rightarrow> error + unit \<Rightarrow> 'p \<Rightarrow> 'p \<Rightarrow> 'p fs \<Rightarrow> error + ('m, 'p) train_state" where
  "train_setup args inputs fresh_enc fresh_dec files0 =
     (case inputs of
        Inl e \<Rightarrow> Inl e
      | Inr _ \<Rightarrow>
          (case NMT_init fresh_enc fresh_dec True files0 of
             Inl e \<Rightarrow> Inl e
           | Inr m \<Rightarrow>
               Inr \<lparr>patience = 0, num_trial = 0, hist_valid_scores = [], model = m,
                    files = files0, trace = []\<rparr>))"

text \<open>\<^verbatim>\<open>if epoch == int(args['--max-epoch']): exit(0)\<close>, the last statement of a validation.\<close>

definition epoch_check ::
  "train_args \<Rightarrow> int \<Rightarrow> ('m, 'p) train_state \<Rightarrow> status \<times> ('m, 'p) train_state" where
  "epoch_check args epoch st =
     (if epoch = arg_max_epoch args
      then (Exited 0, st\<lparr>trace := trace st @ [MaxEpochReached]\<rparr>)
      else (Running, st))"

text \<open>
  \<^verbatim>\<open>is_better = len(hist_valid_scores) == 0 or valid_metric > max(hist_valid_scores)\<close>;
  \<^verbatim>\<open>or\<close> evaluates its right operand only when the history is non-empty.
\<close>

definition is_better :: "('m::linorder) list \<Rightarrow> 'm \<Rightarrow> error + bool" where
  "is_better hist valid_metric =
     (if length hist = 0 then Inr True
      else (case py_max hist of
              Inl e \<Rightarrow> Inl e
            | Inr m \<Rightarrow> Inr (m < valid_metric)))"

text \<open>
  The validation decision, from the computation of \<^verbatim>\<open>is_better\<close> to the epoch check, at
  a validation in epoch \<open>epoch\<close> whose metric is \<open>valid_metric\<close>.
\<close>

definition validation_decision ::
  "train_args \<Rightarrow> int \<Rightarrow> ('m::linorder) \<Rightarrow> ('m, 'p) train_state \<Rightarrow> status \<times> ('m, 'p) train_state" where
  "validation_decision args epoch valid_metric st0 =
     (case is_better (hist_valid_scores st0) valid_metric of
        Inl e \<Rightarrow> (Raised e, st0)
      | Inr better \<Rightarrow>
          (let st = st0\<lparr>hist_valid_scores := hist_valid_scores st0 @ [valid_metric]\<rparr> in
           if better then
             epoch_check args epoch
               (st\<lparr>patience := 0,
                   files := NMT_save (files st) (model st) (model_save_path args),
                   trace := trace st @ [SaveCheckpoint (model_save_path args)]\<rparr>)
           else if patience st < arg_patience args then
             (let st = st\<lparr>patience := patience st + 1\<rparr> in
              if patience st = arg_patience args then
                (let st = st\<lparr>num_trial := num_trial st + 1\<rparr> in
                 if num_trial st = arg_max_num_trial args then
                   (Exited 0, st\<lparr>trace := trace st @ [EarlyStop]\<rparr>)
                 else
                   (let st = st\<lparr>model := (model st)\<lparr>scheduler_steps :=
                                                Suc (scheduler_steps (model st))\<rparr>,
                                 trace := trace st @ [SchedulerStep]\<rparr>
                    in case NMT_load (files st) (model st) (model_save_path args) of
                         (Some e, m) \<Rightarrow> (Raised e, st\<lparr>model := m\<rparr>)
                       | (None, m) \<Rightarrow>
                           epoch_check args epoch
                             (st\<lparr>model := m,
                                 trace := trace st @ [LoadCheckpoint (model_save_path args)],
                                 patience := 0\<rparr>)))
              else epoch_check args epoch st)
           else epoch_check args epoch st))"

text \<open>
  The loop seen at its validations: each item is the epoch and the metric of one
  validation, and \<open>optimise\<close> is what the training steps since the previous validation do
  to the model (an external computation). The loop goes on while no exit or exception
  happens.
\<close>

fun run_validations ::
  "train_args \<Rightarrow> ('p NMT \<Rightarrow> 'p NMT) \<Rightarrow> (int \<times> ('m::linorder)) list \<Rightarrow> ('m, 'p) train_state
     \<Rightarrow> status \<times> ('m, 'p) train_state" where
  "run_validations args optimise [] st = (Running, st)"
| "run_validations args optimise ((epoch, valid_metric) # rest) st =
     (case validation_decision args epoch valid_metric (st\<lparr>model := optimise (model st)\<rparr>) of
        (Running, st') \<Rightarrow> run_validations args optimise rest st'
      | (s, st') \<Rightarrow> (s, st'))"

text \<open>
  A validation improves when its metric is strictly above the maximum of the history so
  far; with an empty history it improves by definition.
\<close>

definition improved :: "('m::linorder) list \<Rightarrow> 'm \<Rightarrow> bool" where
  "improved hist valid_metric = (hist = [] \<or> Max (set hist) < valid_metric)"

section \<open>Properties of the batch padder\<close>

lemma py_max_fold: "fold (\<lambda>item m. if m < item then item else m) rest (x::'a::linorder) = Max (set (x # rest))"
proof -
  have "(\<lambda>item (m::'a). if m < item then item else m) = max"
    by (intro ext) (auto simp: max_def)
  then show ?thesis by (simp only: Max.set_eq_fold)
qed

lemma py_max_nonempty: "xs \<noteq> [] \<Longrightarrow> py_max xs = Inr (Max (set xs))"
  by (cases xs) (simp_all add: py_max_def py_max_fold del: set_simps)

lemma py_max_empty: "py_max [] = Inl ValueError"
  by (simp add: py_max_def)

lemma set_row_prefix_zero:
  assumes "length pre = i" and "length xs \<le> w"
  shows "set_row_prefix (pre @ replicate (Suc k) (replicate w 0)) i (length xs) xs
         = Inr ((pre @ [pad_row w xs]) @ replicate k (replicate w 0))"
  using assms
  by (simp add: set_row_prefix_def assign_prefix_def pad_row_def nth_append list_update_append)

lemma pad_loop_closed:
  assumes "length ps = i" "length pin = i" "length ptg = i" "length pairs \<le> k"
    and "\<forall>p\<in>set pairs. length (fst p) \<le> ws \<and> length (snd p) - 1 \<le> wt"
  shows "pad_loop i pairs
           \<lparr>padded_src_sents = ps @ replicate k (replicate ws 0),
            padded_Yinput = pin @ replicate k (replicate wt 0),
            padded_Ytarget = ptg @ replicate k (replicate wt 0),
            src_lens = sl, tgt_lens = tls\<rparr>
         = Inr \<lparr>padded_src_sents =
                  ps @ map (\<lambda>p. pad_row ws (fst p)) pairs @ replicate (k - length pairs) (replicate ws 0),
                padded_Yinput =
                  pin @ map (\<lambda>p. pad_row wt (slice_to_last (snd p))) pairs @ replicate (k - length pairs) (replicate wt 0),
                padded_Ytarget =
                  ptg @ map (\<lambda>p. pad_row wt (slice_from_1 (snd p))) pairs @ replicate (k - length pairs) (replicate wt 0),
                src_lens = sl @ map (\<lambda>p. length (fst p)) pairs,
                tgt_lens = tls @ map (\<lambda>p. length (snd p) - 1) pairs\<rparr>"
  using assms
proof (induction pairs arbitrary: i ps pin ptg k sl tls)
  case Nil
  then show ?case by simp
next
  case (Cons p pairs)
  then obtain k' where k: "k = Suc k'" by (cases k) auto
  have l1: "length (fst p) \<le> ws" and l2: "length (slice_to_last (snd p)) \<le> wt"
    and l3: "length (slice_from_1 (snd p)) \<le> wt"
    and l4: "length (slice_from_1 (snd p)) = length (slice_to_last (snd p))"
    using Cons.prems(5) by (auto simp: slice_to_last_def slice_from_1_def)
  have s1: "set_row_prefix (ps @ replicate (Suc k') (replicate ws 0)) i (length (fst p)) (fst p)
      = Inr ((ps @ [pad_row ws (fst p)]) @ replicate k' (replicate ws 0))"
    by (rule set_row_prefix_zero[OF Cons.prems(1) l1])
  have s2: "set_row_prefix (pin @ replicate (Suc k') (replicate wt 0)) i (length (slice_to_last (snd p))) (slice_to_last (snd p))
      = Inr ((pin @ [pad_row wt (slice_to_last (snd p))]) @ replicate k' (replicate wt 0))"
    by (rule set_row_prefix_zero[OF Cons.prems(2) l2])
  have s3: "set_row_prefix (ptg @ replicate (Suc k') (replicate wt 0)) i (length (slice_to_last (snd p))) (slice_from_1 (snd p))
      = Inr ((ptg @ [pad_row wt (slice_from_1 (snd p))]) @ replicate k' (replicate wt 0))"
    using set_row_prefix_zero[OF Cons.prems(3) l3] by (simp only: l4)
  have IH: "pad_loop (Suc i) pairs
           \<lparr>padded_src_sents = (ps @ [pad_row ws (fst p)]) @ replicate k' (replicate ws 0),
            padded_Yinput = (pin @ [pad_row wt (slice_to_last (snd p))]) @ replicate k' (replicate wt 0),
            padded_Ytarget = (ptg @ [pad_row wt (slice_from_1 (snd p))]) @ replicate k' (replicate wt 0),
            src_lens = sl @ [length (fst p)], tgt_lens = tls @ [length (slice_to_last (snd p))]\<rparr>
         = Inr \<lparr>padded_src_sents =
                  (ps @ [pad_row ws (fst p)]) @ map (\<lambda>p. pad_row ws (fst p)) pairs @ replicate (k' - length pairs) (replicate ws 0),
                padded_Yinput =
                  (pin @ [pad_row wt (slice_to_last (snd p))]) @ map (\<lambda>p. pad_row wt (slice_to_last (snd p))) pairs @ replicate (k' - length pairs) (replicate wt 0),
                padded_Ytarget =
                  (ptg @ [pad_row wt (slice_from_1 (snd p))]) @ map (\<lambda>p. pad_row wt (slice_from_1 (snd p))) pairs @ replicate (k' - length pairs) (replicate wt 0),
                src_lens = (sl @ [length (fst p)]) @ map (\<lambda>p. length (fst p)) pairs,
                tgt_lens = (tls @ [length (slice_to_last (snd p))]) @ map (\<lambda>p. length (snd p) - 1) pairs\<rparr>"
    using Cons.prems k by (intro Cons.IH) auto
  show ?case
    unfolding k pad_loop.simps Let_def s1 s2 s3 sum.case pad_state.simps IH
    by (simp add: slice_to_last_def)
qed


lemma sent_padding_closed:
  assumes "src_sents \<noteq> []" and "tgt_sents \<noteq> []"
  shows "sent_padding src_sents tgt_sents =
     Inr (map (\<lambda>p. pad_row (Max (set (map length src_sents))) (fst p)) (zip src_sents tgt_sents)
            @ replicate (length src_sents - length (zip src_sents tgt_sents))
                (replicate (Max (set (map length src_sents))) 0),
          map (\<lambda>p. length (fst p)) (zip src_sents tgt_sents),
          map (\<lambda>p. pad_row (Max (set (map length tgt_sents))) (slice_to_last (snd p))) (zip src_sents tgt_sents)
            @ replicate (length src_sents - length (zip src_sents tgt_sents))
                (replicate (Max (set (map length tgt_sents))) 0),
          map (\<lambda>p. pad_row (Max (set (map length tgt_sents))) (slice_from_1 (snd p))) (zip src_sents tgt_sents)
            @ replicate (length src_sents - length (zip src_sents tgt_sents))
                (replicate (Max (set (map length tgt_sents))) 0),
          map (\<lambda>p. length (snd p) - 1) (zip src_sents tgt_sents))"
proof -
  let ?ws = "Max (set (map length src_sents))" and ?wt = "Max (set (map length tgt_sents))"
  have m1: "py_max (map length src_sents) = Inr ?ws"
    using assms(1) by (intro py_max_nonempty) simp
  have m2: "py_max (map length tgt_sents) = Inr ?wt"
    using assms(2) by (intro py_max_nonempty) simp
  have bnd: "\<forall>p\<in>set (zip src_sents tgt_sents). length (fst p) \<le> ?ws \<and> length (snd p) - 1 \<le> ?wt"
  proof
    fix p assume p: "p \<in> set (zip src_sents tgt_sents)"
    then have "fst p \<in> set src_sents" and "snd p \<in> set tgt_sents"
      by (auto dest: set_zip_leftD set_zip_rightD simp: prod_eq_iff intro: set_zip_leftD[of "fst p" "snd p"] set_zip_rightD[of "fst p" "snd p"])
    then have "length (fst p) \<le> ?ws" and "length (snd p) \<le> ?wt"
      by (auto intro!: Max_ge)
    then show "length (fst p) \<le> ?ws \<and> length (snd p) - 1 \<le> ?wt" by simp
  qed
  have loop: "pad_loop 0 (zip src_sents tgt_sents)
           \<lparr>padded_src_sents = [] @ replicate (length src_sents) (replicate ?ws 0),
            padded_Yinput = [] @ replicate (length src_sents) (replicate ?wt 0),
            padded_Ytarget = [] @ replicate (length src_sents) (replicate ?wt 0),
            src_lens = [], tgt_lens = []\<rparr> = Inr
           \<lparr>padded_src_sents = [] @ map (\<lambda>p. pad_row ?ws (fst p)) (zip src_sents tgt_sents)
               @ replicate (length src_sents - length (zip src_sents tgt_sents)) (replicate ?ws 0),
            padded_Yinput = [] @ map (\<lambda>p. pad_row ?wt (slice_to_last (snd p))) (zip src_sents tgt_sents)
               @ replicate (length src_sents - length (zip src_sents tgt_sents)) (replicate ?wt 0),
            padded_Ytarget = [] @ map (\<lambda>p. pad_row ?wt (slice_from_1 (snd p))) (zip src_sents tgt_sents)
               @ replicate (length src_sents - length (zip src_sents tgt_sents)) (replicate ?wt 0),
            src_lens = [] @ map (\<lambda>p. length (fst p)) (zip src_sents tgt_sents),
            tgt_lens = [] @ map (\<lambda>p. length (snd p) - 1) (zip src_sents tgt_sents)\<rparr>"
    by (rule pad_loop_closed[OF _ _ _ _ bnd]) simp_all
  show ?thesis
    unfolding sent_padding_def Let_def m1 m2 sum.case np_zeros_def
    using loop by simp
qed









lemma slice_1_to_last_eq: "slice_1_to_last xs = butlast (tl xs)"
  by (cases xs) (simp_all add: slice_1_to_last_def butlast_conv_take drop_take)



lemma sent_padding_no_sources: "sent_padding [] tgt_sents = Inl ValueError"
  by (simp add: sent_padding_def py_max_def)

lemma sent_padding_no_targets: "sent_padding src_sents [] = Inl ValueError"
  by (cases src_sents) (simp_all add: sent_padding_def py_max_def)

text \<open>
  Claim C3, counterexample. A batch whose second source sentence is empty, whose first
  target has one token and whose second target is empty is padded without any error: the
  padder has no check for degenerate sentences.
\<close>

theorem sent_padding_degenerate_counterexample:
  "sent_padding [[4, 5], []] [[1], []] =
     Inr ([[4, 5], [0, 0]], [2, 0], [[0], [0]], [[0], [0]], [0, 0])"
  by code_simp

text \<open>
  Claim C3, amended. The padder fails, with the \<^verbatim>\<open>ValueError\<close> of \<^verbatim>\<open>max\<close> over an empty
  list, exactly when the list of source sentences or the list of target sentences is
  empty. On every other input, batches with empty sentences or with targets shorter than
  two tokens included, it returns a padded result.
\<close>

theorem sent_padding_fails_iff_empty:
  "(sent_padding src_sents tgt_sents = Inl ValueError) = (src_sents = [] \<or> tgt_sents = []) \<and>
   (\<exists>r. sent_padding src_sents tgt_sents = Inr r) = (src_sents \<noteq> [] \<and> tgt_sents \<noteq> [])"
proof (cases "src_sents = [] \<or> tgt_sents = []")
  case True
  then have "sent_padding src_sents tgt_sents = Inl ValueError"
    using sent_padding_no_sources sent_padding_no_targets by auto
  with True show ?thesis by auto
next
  case False
  then have ne: "src_sents \<noteq> []" "tgt_sents \<noteq> []" by auto
  have "\<exists>r. sent_padding src_sents tgt_sents = Inr r"
    unfolding sent_padding_closed[OF ne] by blast
  with False show ?thesis by auto
qed

text \<open>
  Claim C6, counterexample. On the batch of scenario 1 the padder returns, and both decoder
  matrices (the third and the fourth component of the result) have width 4, the maximum
  target length, not 2; their rows carry the padding zeros.
\<close>

theorem sent_padding_scenario1_counterexample:
  "sent_padding [[4, 5], [4, 5, 6]] [[1, 7, 2], [1, 7, 8, 2]]
     = Inr (projr (sent_padding [[4, 5], [4, 5, 6]] [[1, 7, 2], [1, 7, 8, 2]])) \<and>
   map length (fst (snd (snd (projr
     (sent_padding [[4, 5], [4, 5, 6]] [[1, 7, 2], [1, 7, 8, 2]]))))) = [4, 4] \<and>
   map length (fst (snd (snd (snd (projr
     (sent_padding [[4, 5], [4, 5, 6]] [[1, 7, 2], [1, 7, 8, 2]])))))) = [4, 4] \<and>
   fst (snd (snd (projr
     (sent_padding [[4, 5], [4, 5, 6]] [[1, 7, 2], [1, 7, 8, 2]])))) \<noteq> [[1, 7], [1, 7, 8]] \<and>
   fst (snd (snd (snd (projr
     (sent_padding [[4, 5], [4, 5, 6]] [[1, 7, 2], [1, 7, 8, 2]]))))) \<noteq> [[7, 2], [7, 8, 2]]"
proof -
  have "sent_padding [[4, 5], [4, 5, 6]] [[1, 7, 2], [1, 7, 8, 2]] =
     Inr ([[4, 5, 0], [4, 5, 6]], [2, 3], [[1, 7, 0, 0], [1, 7, 8, 0]],
          [[7, 2, 0, 0], [7, 8, 2, 0]], [2, 3])"
    by code_simp
  then show ?thesis by simp
qed

text \<open>
  Claim C6, amended. Padding source sentences \<open>[[4,5],[4,5,6]]\<close> with target sentences
  \<open>[[1,7,2],[1,7,8,2]]\<close> yields a source matrix of width 3, target lengths \<open>[2,3]\<close>, a
  decoder-input matrix of width 4 with rows \<open>[[1,7,0,0],[1,7,8,0]]\<close> and a decoder-target
  matrix of width 4 with rows \<open>[[7,2,0,0],[7,8,2,0]]\<close>.
\<close>

theorem sent_padding_scenario1:
  "sent_padding [[4, 5], [4, 5, 6]] [[1, 7, 2], [1, 7, 8, 2]] =
     Inr ([[4, 5, 0], [4, 5, 6]], [2, 3], [[1, 7, 0, 0], [1, 7, 8, 0]],
          [[7, 2, 0, 0], [7, 8, 2, 0]], [2, 3])"
  by (simp add: sent_padding_def py_max_def np_zeros_def set_row_prefix_def assign_prefix_def
      slice_to_last_def slice_from_1_def Let_def)

section \<open>Properties of the validation decision\<close>

lemma is_better_improved: "is_better hist valid_metric = Inr (improved hist valid_metric)"
  by (cases "hist = []") (simp_all add: is_better_def improved_def py_max_nonempty)

lemma decision_improved:
  assumes "improved (hist_valid_scores st) valid_metric"
  shows "validation_decision args epoch valid_metric st =
     epoch_check args epoch
       (st\<lparr>hist_valid_scores := hist_valid_scores st @ [valid_metric],
           patience := 0,
           files := NMT_save (files st) (model st) (model_save_path args),
           trace := trace st @ [SaveCheckpoint (model_save_path args)]\<rparr>)"
  using assms by (simp add: validation_decision_def is_better_improved Let_def)

lemma decision_at_limit:
  assumes "\<not> improved (hist_valid_scores st) valid_metric"
    and "arg_patience args \<le> patience st"
  shows "validation_decision args epoch valid_metric st =
     epoch_check args epoch (st\<lparr>hist_valid_scores := hist_valid_scores st @ [valid_metric]\<rparr>)"
  using assms by (simp add: validation_decision_def is_better_improved Let_def)

lemma decision_below_limit:
  assumes "\<not> improved (hist_valid_scores st) valid_metric"
    and "patience st + 1 < arg_patience args"
  shows "validation_decision args epoch valid_metric st =
     epoch_check args epoch
       (st\<lparr>hist_valid_scores := hist_valid_scores st @ [valid_metric],
           patience := patience st + 1\<rparr>)"
  using assms by (simp add: validation_decision_def is_better_improved Let_def)

lemma decision_early_stop:
  assumes "\<not> improved (hist_valid_scores st) valid_metric"
    and "patience st + 1 = arg_patience args"
    and "num_trial st + 1 = arg_max_num_trial args"
  shows "validation_decision args epoch valid_metric st =
     (Exited 0,
      st\<lparr>hist_valid_scores := hist_valid_scores st @ [valid_metric],
         patience := patience st + 1,
         num_trial := num_trial st + 1,
         trace := trace st @ [EarlyStop]\<rparr>)"
  using assms by (simp add: validation_decision_def is_better_improved Let_def)

lemma decision_trial:
  assumes "\<not> improved (hist_valid_scores st) valid_metric"
    and "patience st + 1 = arg_patience args"
    and "num_trial st + 1 \<noteq> arg_max_num_trial args"
  shows "validation_decision args epoch valid_metric st =
     (case NMT_load (files st)
             ((model st)\<lparr>scheduler_steps := Suc (scheduler_steps (model st))\<rparr>)
             (model_save_path args) of
        (Some e, m) \<Rightarrow>
          (Raised e,
           st\<lparr>hist_valid_scores := hist_valid_scores st @ [valid_metric],
              patience := patience st + 1,
              num_trial := num_trial st + 1,
              trace := trace st @ [SchedulerStep],
              model := m\<rparr>)
      | (None, m) \<Rightarrow>
          epoch_check args epoch
            (st\<lparr>hist_valid_scores := hist_valid_scores st @ [valid_metric],
                num_trial := num_trial st + 1,
                model := m,
                trace := trace st @ [SchedulerStep, LoadCheckpoint (model_save_path args)],
                patience := 0\<rparr>))"
  using assms by (simp add: validation_decision_def is_better_improved Let_def split: prod.splits option.splits)

lemma epoch_check_fields:
  "patience (snd (epoch_check args epoch st)) = patience st"
  "num_trial (snd (epoch_check args epoch st)) = num_trial st"
  "files (snd (epoch_check args epoch st)) = files st"
  "hist_valid_scores (snd (epoch_check args epoch st)) = hist_valid_scores st"
  "model (snd (epoch_check args epoch st)) = model st"
  "trace (snd (epoch_check args epoch st)) =
     trace st @ (if epoch = arg_max_epoch args then [MaxEpochReached] else [])"
  "fst (epoch_check args epoch st) = (if epoch = arg_max_epoch args then Exited 0 else Running)"
  by (simp_all add: epoch_check_def)


lemma decision_not_improved_frame:
  assumes "\<not> improved (hist_valid_scores st) valid_metric"
  shows "\<exists>new. trace (snd (validation_decision args epoch valid_metric st)) = trace st @ new \<and>
           (\<forall>p. SaveCheckpoint p \<notin> set new) \<and>
           files (snd (validation_decision args epoch valid_metric st)) = files st \<and>
           hist_valid_scores (snd (validation_decision args epoch valid_metric st)) =
             hist_valid_scores st @ [valid_metric]"
proof -
  consider (limit) "arg_patience args \<le> patience st"
    | (below) "patience st + 1 < arg_patience args"
    | (stop) "patience st + 1 = arg_patience args" "num_trial st + 1 = arg_max_num_trial args"
    | (trial) "patience st + 1 = arg_patience args" "num_trial st + 1 \<noteq> arg_max_num_trial args"
    by linarith
  then show ?thesis
  proof cases
    case limit
    show ?thesis
      unfolding decision_at_limit[OF assms limit] by (simp add: epoch_check_fields)
  next
    case below
    show ?thesis
      unfolding decision_below_limit[OF assms below] by (simp add: epoch_check_fields)
  next
    case stop
    show ?thesis
      unfolding decision_early_stop[OF assms stop] by simp
  next
    case trial
    show ?thesis
      unfolding decision_trial[OF assms trial]
      by (simp add: epoch_check_fields split: prod.splits option.splits)
  qed
qed

lemma decision_improved_frame:
  assumes "improved (hist_valid_scores st) valid_metric"
  shows "trace (snd (validation_decision args epoch valid_metric st)) =
           trace st @ SaveCheckpoint (model_save_path args) #
             (if epoch = arg_max_epoch args then [MaxEpochReached] else [])"
    and "files (snd (validation_decision args epoch valid_metric st)) =
           NMT_save (files st) (model st) (model_save_path args)"
    and "patience (snd (validation_decision args epoch valid_metric st)) = 0"
    and "hist_valid_scores (snd (validation_decision args epoch valid_metric st)) =
             hist_valid_scores st @ [valid_metric]"
  unfolding decision_improved[OF assms] by (simp_all add: epoch_check_fields)

text \<open>
  Claim C4. At every validation a checkpoint is saved if and only if the metric strictly
  exceeds the running maximum of the validation history (the first validation counts as an
  improvement), and whenever a checkpoint is saved the patience counter is 0 afterwards.
  The saved files are those of the model at that moment; without an improvement the files
  are untouched.
\<close>

theorem checkpoint_iff_improvement:
  assumes "validation_decision args epoch valid_metric st = (s, st')"
  shows "(\<exists>new. trace st' = trace st @ new \<and>
            (\<exists>p. SaveCheckpoint p \<in> set new) = improved (hist_valid_scores st) valid_metric \<and>
            ((\<exists>p. SaveCheckpoint p \<in> set new) \<longrightarrow> patience st' = 0)) \<and>
         files st' =
           (if improved (hist_valid_scores st) valid_metric
            then NMT_save (files st) (model st) ''model'' else files st) \<and>
         hist_valid_scores st' = hist_valid_scores st @ [valid_metric]"
proof (cases "improved (hist_valid_scores st) valid_metric")
  case True
  have st': "st' = snd (validation_decision args epoch valid_metric st)"
    using assms by simp
  note f = decision_improved_frame[OF True, of args epoch, folded st']
  have "trace st' = trace st @ (SaveCheckpoint (model_save_path args) #
             (if epoch = arg_max_epoch args then [MaxEpochReached] else []))"
    using f(1) by simp
  moreover have "\<exists>p. SaveCheckpoint p \<in> set (SaveCheckpoint (model_save_path args) #
             (if epoch = arg_max_epoch args then [MaxEpochReached] else []))"
    by auto
  ultimately have "\<exists>new. trace st' = trace st @ new \<and>
            (\<exists>p. SaveCheckpoint p \<in> set new) = improved (hist_valid_scores st) valid_metric \<and>
            ((\<exists>p. SaveCheckpoint p \<in> set new) \<longrightarrow> patience st' = 0)"
    using True f(3) by blast
  then show ?thesis using True f(2,4) by (simp add: model_save_path_def)
next
  case False
  have st': "st' = snd (validation_decision args epoch valid_metric st)"
    using assms by simp
  from decision_not_improved_frame[OF False, of args epoch, folded st']
  obtain new where n: "trace st' = trace st @ new" "\<forall>p. SaveCheckpoint p \<notin> set new"
    "files st' = files st" "hist_valid_scores st' = hist_valid_scores st @ [valid_metric]"
    by blast
  have "\<exists>new. trace st' = trace st @ new \<and>
            (\<exists>p. SaveCheckpoint p \<in> set new) = improved (hist_valid_scores st) valid_metric \<and>
            ((\<exists>p. SaveCheckpoint p \<in> set new) \<longrightarrow> patience st' = 0)"
    using n(1,2) False by blast
  then show ?thesis using False n(3,4) by simp
qed


lemma run_validations_snoc:
  assumes "run_validations args optimise evs st = (Running, st1)"
  shows "run_validations args optimise (evs @ [(epoch, valid_metric)]) st =
           validation_decision args epoch valid_metric (st1\<lparr>model := optimise (model st1)\<rparr>)"
  using assms
proof (induction evs arbitrary: st)
  case Nil
  then show ?case by (simp split: prod.splits status.splits)
next
  case (Cons ev evs)
  obtain e v where ev: "ev = (e, v)" by (cases ev)
  obtain s2 st2 where d: "validation_decision args e v (st\<lparr>model := optimise (model st)\<rparr>) = (s2, st2)"
    by (cases "validation_decision args e v (st\<lparr>model := optimise (model st)\<rparr>)")
  show ?case
  proof (cases s2)
    case Running
    then have "run_validations args optimise evs st2 = (Running, st1)"
      using Cons.prems ev d by simp
    from Cons.IH[OF this] show ?thesis using ev d Running by simp
  next
    case (Exited n)
    then show ?thesis using Cons.prems ev d by simp
  next
    case (Raised x)
    then show ?thesis using Cons.prems ev d by simp
  qed
qed

lemma not_improved_append:
  assumes "\<not> improved hist w"
  shows "\<not> improved (hist @ vs) w"
proof -
  have ne: "hist \<noteq> []" and w: "w \<le> Max (set hist)"
    using assms by (simp_all add: improved_def not_less del: Max_less_iff)
  have "Max (set hist) \<le> Max (set (hist @ vs))"
    using ne by (intro Max_mono) auto
  then have "w \<le> Max (set (hist @ vs))" using w by simp
  then show ?thesis using ne by (simp add: improved_def not_less del: Max_less_iff set_append)
qed

lemma run_non_improving_below:
  assumes "\<forall>ev\<in>set evs. \<not> improved (hist_valid_scores st) (snd ev) \<and> fst ev \<noteq> arg_max_epoch args"
    and "patience st + int (length evs) < arg_patience args"
  shows "\<exists>st'. run_validations args optimise evs st = (Running, st') \<and>
           patience st' = patience st + int (length evs) \<and>
           num_trial st' = num_trial st \<and>
           hist_valid_scores st' = hist_valid_scores st @ map snd evs"
  using assms
proof (induction evs arbitrary: st)
  case Nil
  then show ?case by simp
next
  case (Cons ev evs)
  obtain e v where ev: "ev = (e, v)" by (cases ev)
  let ?st0 = "st\<lparr>model := optimise (model st)\<rparr>"
  let ?st1 = "?st0\<lparr>hist_valid_scores := hist_valid_scores ?st0 @ [v], patience := patience ?st0 + 1\<rparr>"
  have ni: "\<not> improved (hist_valid_scores ?st0) v" and ep: "e \<noteq> arg_max_epoch args"
    using Cons.prems(1) ev by auto
  have below: "patience ?st0 + 1 < arg_patience args"
    using Cons.prems(2) by simp
  have d: "validation_decision args e v ?st0 = (Running, ?st1)"
    unfolding decision_below_limit[OF ni below] using ep by (simp add: epoch_check_def)
  have p1: "\<forall>ev\<in>set evs. \<not> improved (hist_valid_scores ?st1) (snd ev) \<and> fst ev \<noteq> arg_max_epoch args"
  proof
    fix x assume x: "x \<in> set evs"
    then have "\<not> improved (hist_valid_scores st) (snd x)" and "fst x \<noteq> arg_max_epoch args"
      using Cons.prems(1) by auto
    then show "\<not> improved (hist_valid_scores ?st1) (snd x) \<and> fst x \<noteq> arg_max_epoch args"
      using not_improved_append[of "hist_valid_scores st" "snd x" "[v]"] by simp
  qed
  have p2: "patience ?st1 + int (length evs) < arg_patience args"
    using Cons.prems(2) by simp
  from Cons.IH[OF p1 p2] obtain st' where
    r: "run_validations args optimise evs ?st1 = (Running, st')"
      "patience st' = patience ?st1 + int (length evs)"
      "num_trial st' = num_trial ?st1"
      "hist_valid_scores st' = hist_valid_scores ?st1 @ map snd evs"
    by blast
  have "run_validations args optimise (ev # evs) st = (Running, st')"
    using ev d r(1) by simp
  then show ?case using r(2,3,4) ev by simp
qed

lemma decision_num_trial:
  assumes "\<not> improved (hist_valid_scores st) valid_metric"
  shows "num_trial (snd (validation_decision args epoch valid_metric st)) =
           num_trial st + (if patience st + 1 = arg_patience args then 1 else 0)"
proof -
  consider (limit) "arg_patience args \<le> patience st"
    | (below) "patience st + 1 < arg_patience args"
    | (stop) "patience st + 1 = arg_patience args" "num_trial st + 1 = arg_max_num_trial args"
    | (trial) "patience st + 1 = arg_patience args" "num_trial st + 1 \<noteq> arg_max_num_trial args"
    by linarith
  then show ?thesis
  proof cases
    case limit
    show ?thesis
      unfolding decision_at_limit[OF assms limit] using limit by (simp add: epoch_check_fields)
  next
    case below
    show ?thesis
      unfolding decision_below_limit[OF assms below] using below by (simp add: epoch_check_fields)
  next
    case stop
    show ?thesis
      unfolding decision_early_stop[OF assms stop] using stop by simp
  next
    case trial
    show ?thesis
      unfolding decision_trial[OF assms trial] using trial
      by (simp add: epoch_check_fields split: prod.splits option.splits)
  qed
qed

text \<open>
  Claim C1, counterexample. With patience limit 2, training is set up from an existing
  checkpoint and validated with the metrics -20, -15, -18, -19. After the third validation
  the loop is running, the patience counter is 1 and no trial has happened; the fourth
  validation, the second non-improving one in a row, finds the patience counter at 1,
  below the limit, and the trial counter is 1 after it. No third non-improving validation
  is needed.
\<close>

theorem trial_counter_counterexample:
  "train_setup \<lparr>arg_patience = 2, arg_max_num_trial = 5, arg_max_epoch = 30, save_to = None\<rparr>
       (Inr ()) (0::nat) 0 [''model-encoder'' \<mapsto> 1, ''model-decoder'' \<mapsto> 2]
     = (Inr \<lparr>patience = 0, num_trial = 0, hist_valid_scores = [],
             model = \<lparr>encoder = 1, decoder = 2, encoder_eval = True, decoder_eval = True,
                      scheduler_steps = 0\<rparr>,
             files = [''model-encoder'' \<mapsto> 1, ''model-decoder'' \<mapsto> 2], trace = []\<rparr>
        :: error + (int, nat) train_state) \<and>
   fst (run_validations
          \<lparr>arg_patience = 2, arg_max_num_trial = 5, arg_max_epoch = 30, save_to = None\<rparr> id
          [(1, - 20 :: int), (1, - 15), (1, - 18)]
          \<lparr>patience = 0, num_trial = 0, hist_valid_scores = [],
           model = \<lparr>encoder = 1 :: nat, decoder = 2, encoder_eval = True, decoder_eval = True,
                    scheduler_steps = 0\<rparr>,
           files = [''model-encoder'' \<mapsto> 1, ''model-decoder'' \<mapsto> 2], trace = []\<rparr>) = Running \<and>
   patience (snd (run_validations
          \<lparr>arg_patience = 2, arg_max_num_trial = 5, arg_max_epoch = 30, save_to = None\<rparr> id
          [(1, - 20 :: int), (1, - 15), (1, - 18)]
          \<lparr>patience = 0, num_trial = 0, hist_valid_scores = [],
           model = \<lparr>encoder = 1 :: nat, decoder = 2, encoder_eval = True, decoder_eval = True,
                    scheduler_steps = 0\<rparr>,
           files = [''model-encoder'' \<mapsto> 1, ''model-decoder'' \<mapsto> 2], trace = []\<rparr>)) = 1 \<and>
   num_trial (snd (run_validations
          \<lparr>arg_patience = 2, arg_max_num_trial = 5, arg_max_epoch = 30, save_to = None\<rparr> id
          [(1, - 20 :: int), (1, - 15), (1, - 18)]
          \<lparr>patience = 0, num_trial = 0, hist_valid_scores = [],
           model = \<lparr>encoder = 1 :: nat, decoder = 2, encoder_eval = True, decoder_eval = True,
                    scheduler_steps = 0\<rparr>,
           files = [''model-encoder'' \<mapsto> 1, ''model-decoder'' \<mapsto> 2], trace = []\<rparr>)) = 0 \<and>
   \<not> improved [- 20, - 15, - 18 :: int] (- 19) \<and>
   num_trial (snd (run_validations
          \<lparr>arg_patience = 2, arg_max_num_trial = 5, arg_max_epoch = 30, save_to = None\<rparr> id
          [(1, - 20 :: int), (1, - 15), (1, - 18), (1, - 19)]
          \<lparr>patience = 0, num_trial = 0, hist_valid_scores = [],
           model = \<lparr>encoder = 1 :: nat, decoder = 2, encoder_eval = True, decoder_eval = True,
                    scheduler_steps = 0\<rparr>,
           files = [''model-encoder'' \<mapsto> 1, ''model-decoder'' \<mapsto> 2], trace = []\<rparr>)) = 1"
  by (simp add: train_setup_def NMT_init_def NMT_load_def torch_load_def validation_decision_def
      is_better_def py_max_def epoch_check_def NMT_save_def model_save_path_def improved_def Let_def)

text \<open>
  Claim C1, amended. At a validation whose metric does not strictly exceed the running
  maximum, the patience counter is incremented while it is below the configured limit, and
  the trial counter is incremented exactly when this increment brings the patience counter
  to the limit, that is when the counter was one below the limit before. So, from a
  patience counter of 0, a trial happens at the last of patience-limit consecutive
  non-improving validations and not before. At a trial the loop stops when the trial
  counter then equals max-trials; otherwise, unless reloading the checkpoint raises, the
  patience counter is reset to 0. A patience counter at or above the limit is left alone.
\<close>

theorem trial_when_patience_reaches_limit:
  assumes ni: "\<not> improved (hist_valid_scores st) valid_metric"
    and vd: "validation_decision args epoch valid_metric st = (s, st')"
  shows "num_trial st' = num_trial st + (if patience st + 1 = arg_patience args then 1 else 0) \<and>
         (patience st + 1 < arg_patience args \<longrightarrow> patience st' = patience st + 1) \<and>
         (arg_patience args \<le> patience st \<longrightarrow> patience st' = patience st) \<and>
         (patience st + 1 = arg_patience args \<and> num_trial st + 1 = arg_max_num_trial args
            \<longrightarrow> s = Exited 0) \<and>
         (patience st + 1 = arg_patience args \<and> num_trial st + 1 \<noteq> arg_max_num_trial args \<and>
          (\<forall>e. s \<noteq> Raised e) \<longrightarrow> patience st' = 0) \<and>
         (\<forall>optimise evs ev.
            patience st = 0 \<and> int (length evs) + 1 = arg_patience args \<and>
            (\<forall>x\<in>set (evs @ [ev]).
               \<not> improved (hist_valid_scores st) (snd x) \<and> fst x \<noteq> arg_max_epoch args)
            \<longrightarrow> num_trial (snd (run_validations args optimise evs st)) = num_trial st \<and>
                num_trial (snd (run_validations args optimise (evs @ [ev]) st)) = num_trial st + 1)"
proof -
  have st': "st' = snd (validation_decision args epoch valid_metric st)"
    and s: "s = fst (validation_decision args epoch valid_metric st)"
    using vd by simp_all
  have c1: "num_trial st' = num_trial st + (if patience st + 1 = arg_patience args then 1 else 0)"
    unfolding st' by (rule decision_num_trial[OF ni])
  have c2: "patience st' = patience st + 1" if b: "patience st + 1 < arg_patience args"
    unfolding st' decision_below_limit[OF ni b] by (simp add: epoch_check_fields)
  have c3: "patience st' = patience st" if b: "arg_patience args \<le> patience st"
    unfolding st' decision_at_limit[OF ni b] by (simp add: epoch_check_fields)
  have c4: "s = Exited 0"
    if b: "patience st + 1 = arg_patience args" "num_trial st + 1 = arg_max_num_trial args"
    unfolding s decision_early_stop[OF ni b] by simp
  have c5: "patience st' = 0"
    if b: "patience st + 1 = arg_patience args" "num_trial st + 1 \<noteq> arg_max_num_trial args"
      and r: "\<forall>e. s \<noteq> Raised e"
    using r unfolding st' s decision_trial[OF ni b]
    by (simp add: epoch_check_fields split: prod.splits option.splits)
  have c6: "num_trial (snd (run_validations args optimise evs st)) = num_trial st \<and>
            num_trial (snd (run_validations args optimise (evs @ [ev]) st)) = num_trial st + 1"
    if p0: "patience st = 0" and len: "int (length evs) + 1 = arg_patience args"
      and all: "\<forall>x\<in>set (evs @ [ev]).
               \<not> improved (hist_valid_scores st) (snd x) \<and> fst x \<noteq> arg_max_epoch args"
    for optimise evs ev
  proof -
    have a1: "\<forall>x\<in>set evs. \<not> improved (hist_valid_scores st) (snd x) \<and> fst x \<noteq> arg_max_epoch args"
      using all by simp
    have a2: "patience st + int (length evs) < arg_patience args"
      using p0 len by simp
    from run_non_improving_below[OF a1 a2, of optimise] obtain st1 where
      r: "run_validations args optimise evs st = (Running, st1)"
        "patience st1 = patience st + int (length evs)"
        "num_trial st1 = num_trial st"
        "hist_valid_scores st1 = hist_valid_scores st @ map snd evs"
      by blast
    obtain e v where ev: "ev = (e, v)" by (cases ev)
    let ?st1 = "st1\<lparr>model := optimise (model st1)\<rparr>"
    have run: "run_validations args optimise (evs @ [ev]) st = validation_decision args e v ?st1"
      unfolding ev by (rule run_validations_snoc[OF r(1)])
    have "\<not> improved (hist_valid_scores st) v" using all ev by simp
    then have ni1: "\<not> improved (hist_valid_scores ?st1) v"
      using not_improved_append[of "hist_valid_scores st" v "map snd evs"] r(4) by simp
    have "num_trial (snd (validation_decision args e v ?st1)) = num_trial st + 1"
      unfolding decision_num_trial[OF ni1] using r(2,3) p0 len by simp
    then show ?thesis using r(1,3) run by simp
  qed
  show ?thesis using c1 c2 c3 c4 c5 c6 by blast
qed

text \<open>Claim C1 (amended) at patience limit 1: the first non-improving validation is a trial.\<close>

theorem trial_when_patience_reaches_limit_witness:
  "\<not> improved [- 20, - 15 :: int] (- 18) \<and>
   num_trial (snd (validation_decision
       \<lparr>arg_patience = 1, arg_max_num_trial = 5, arg_max_epoch = 30, save_to = None\<rparr> 1 (- 18)
       \<lparr>patience = 0, num_trial = 0, hist_valid_scores = [- 20, - 15 :: int],
        model = \<lparr>encoder = 3 :: nat, decoder = 4, encoder_eval = False, decoder_eval = False,
                 scheduler_steps = 0\<rparr>,
        files = [''model-encoder'' \<mapsto> 1, ''model-decoder'' \<mapsto> 2], trace = []\<rparr>)) = 1 \<and>
   patience (snd (validation_decision
       \<lparr>arg_patience = 1, arg_max_num_trial = 5, arg_max_epoch = 30, save_to = None\<rparr> 1 (- 18)
       \<lparr>patience = 0, num_trial = 0, hist_valid_scores = [- 20, - 15 :: int],
        model = \<lparr>encoder = 3 :: nat, decoder = 4, encoder_eval = False, decoder_eval = False,
                 scheduler_steps = 0\<rparr>,
        files = [''model-encoder'' \<mapsto> 1, ''model-decoder'' \<mapsto> 2], trace = []\<rparr>)) = 0"
proof -
  let ?args = "\<lparr>arg_patience = 1, arg_max_num_trial = 5, arg_max_epoch = 30, save_to = None\<rparr>"
  let ?st = "\<lparr>patience = 0, num_trial = 0, hist_valid_scores = [- 20, - 15 :: int],
        model = \<lparr>encoder = 3 :: nat, decoder = 4, encoder_eval = False, decoder_eval = False,
                 scheduler_steps = 0\<rparr>,
        files = [''model-encoder'' \<mapsto> 1, ''model-decoder'' \<mapsto> 2], trace = []\<rparr>"
  have h: "\<not> improved (hist_valid_scores ?st) (- 18)" by (simp add: improved_def)
  have run: "fst (validation_decision ?args 1 (- 18) ?st) = Running"
    by (simp add: validation_decision_def is_better_def py_max_def epoch_check_def
        NMT_load_def torch_load_def model_save_path_def Let_def)
  from trial_when_patience_reaches_limit[OF h prod.collapse[symmetric], of ?args 1]
  have "num_trial (snd (validation_decision ?args 1 (- 18) ?st)) = 1"
    and "patience (snd (validation_decision ?args 1 (- 18) ?st)) = 0"
    using run by simp_all
  then show ?thesis using h by simp
qed

text \<open>Claim C4 at an improving validation with a patience counter of 1.\<close>

theorem checkpoint_iff_improvement_witness:
  "improved [- 20 :: int] (- 15) \<and>
   patience (snd (validation_decision
       \<lparr>arg_patience = 2, arg_max_num_trial = 5, arg_max_epoch = 30, save_to = None\<rparr> 1 (- 15)
       \<lparr>patience = 1, num_trial = 0, hist_valid_scores = [- 20 :: int],
        model = \<lparr>encoder = 3 :: nat, decoder = 4, encoder_eval = False, decoder_eval = False,
                 scheduler_steps = 0\<rparr>,
        files = Map.empty, trace = []\<rparr>)) = 0 \<and>
   files (snd (validation_decision
       \<lparr>arg_patience = 2, arg_max_num_trial = 5, arg_max_epoch = 30, save_to = None\<rparr> 1 (- 15)
       \<lparr>patience = 1, num_trial = 0, hist_valid_scores = [- 20 :: int],
        model = \<lparr>encoder = 3 :: nat, decoder = 4, encoder_eval = False, decoder_eval = False,
                 scheduler_steps = 0\<rparr>,
        files = Map.empty, trace = []\<rparr>)) ''model-encoder'' = Some 3"
proof -
  let ?args = "\<lparr>arg_patience = 2, arg_max_num_trial = 5, arg_max_epoch = 30, save_to = None\<rparr>"
  let ?st = "\<lparr>patience = 1, num_trial = 0, hist_valid_scores = [- 20 :: int],
        model = \<lparr>encoder = 3 :: nat, decoder = 4, encoder_eval = False, decoder_eval = False,
                 scheduler_steps = 0\<rparr>,
        files = Map.empty, trace = []\<rparr>"
  have h: "improved (hist_valid_scores ?st) (- 15)" by (simp add: improved_def)
  from checkpoint_iff_improvement[OF prod.collapse[symmetric], of ?args 1 "- 15" ?st]
  have "patience (snd (validation_decision ?args 1 (- 15) ?st)) = 0"
    and "files (snd (validation_decision ?args 1 (- 15) ?st)) ''model-encoder'' = Some 3"
    using h by (auto simp: NMT_save_def)
  then show ?thesis using h by simp
qed











section \<open>Properties of the scorer and of decoding\<close>

lemma slice_1_to_last_sentinels:
  assumes "2 \<le> length ref" and "hd ref = a" and "last ref = b"
  shows "ref = a # slice_1_to_last ref @ [b]"
proof -
  obtain x xs where r: "ref = x # xs" using assms(1) by (cases ref) auto
  then have xs: "xs \<noteq> []" using assms(1) by auto
  have "xs = butlast xs @ [last xs]" using xs by simp
  then have "ref = x # butlast xs @ [last xs]" using r by simp
  moreover have "slice_1_to_last ref = butlast xs"
    unfolding slice_1_to_last_eq using r by simp
  moreover have "x = a" using assms(2) r by simp
  moreover have "last xs = b" using assms(3) r xs by simp
  ultimately show ?thesis by simp
qed

text \<open>
  Claim C7. For every non-empty list of references that each carry the leading sentinel
  \<^verbatim>\<open><s>\<close> and the trailing sentinel \<^verbatim>\<open></s>\<close>, the scorer hands \<^verbatim>\<open>corpus_bleu\<close> every
  reference without exactly its first and its last token, and the hypotheses as they are.
\<close>

theorem bleu_strips_both_sentinels:
  assumes "references \<noteq> []"
    and "\<forall>ref\<in>set references. 2 \<le> length ref \<and> hd ref = ''<s>'' \<and> last ref = ''</s>''"
  shows "compute_corpus_level_bleu_score corpus_bleu references hypotheses =
           corpus_bleu (map (\<lambda>ref. [butlast (tl ref)]) references) hypotheses \<and>
         (\<forall>ref\<in>set references.
            ref = ''<s>'' # butlast (tl ref) @ [''</s>''] \<and>
            length (butlast (tl ref)) = length ref - 2)"
proof -
  obtain ref0 rest where r: "references = ref0 # rest"
    using assms(1) by (cases references) auto
  have "2 \<le> length ref0" and "hd ref0 = ''<s>''" using assms(2) r by auto
  then obtain toks where t: "ref0 = ''<s>'' # toks" by (cases ref0) auto
  have "compute_corpus_level_bleu_score corpus_bleu references hypotheses =
          corpus_bleu (map (\<lambda>ref. [ref]) (map slice_1_to_last references)) hypotheses"
    unfolding compute_corpus_level_bleu_score_def r t by simp
  then have a: "compute_corpus_level_bleu_score corpus_bleu references hypotheses =
           corpus_bleu (map (\<lambda>ref. [butlast (tl ref)]) references) hypotheses"
    by (simp add: slice_1_to_last_eq o_def)
  have b: "\<forall>ref\<in>set references.
            ref = ''<s>'' # butlast (tl ref) @ [''</s>''] \<and>
            length (butlast (tl ref)) = length ref - 2"
  proof
    fix ref assume "ref \<in> set references"
    then have h: "2 \<le> length ref" "hd ref = ''<s>''" "last ref = ''</s>''"
      using assms(2) by auto
    from slice_1_to_last_sentinels[OF h]
    show "ref = ''<s>'' # butlast (tl ref) @ [''</s>''] \<and>
            length (butlast (tl ref)) = length ref - 2"
      unfolding slice_1_to_last_eq by simp
  qed
  show ?thesis using a b by blast
qed

text \<open>Claim C7 on two references, the second holding the sentinels only.\<close>

theorem bleu_strips_both_sentinels_witness:
  "compute_corpus_level_bleu_score (\<lambda>refs hyps. Inr (refs, hyps))
       [[''<s>'', ''a'', ''b'', ''</s>''], [''<s>'', ''</s>'']] [[''a'', ''c''], [''d'']] =
     (Inr ([[[''a'', ''b'']], [[]]], [[''a'', ''c''], [''d'']])
        :: error + (string list list list \<times> string list list))"
proof -
  let ?refs = "[[''<s>'', ''a'', ''b'', ''</s>''], [''<s>'', ''</s>'']]"
  have h1: "?refs \<noteq> []" by simp
  have h2: "\<forall>ref\<in>set ?refs. 2 \<le> length ref \<and> hd ref = ''<s>'' \<and> last ref = ''</s>''"
    by simp
  from bleu_strips_both_sentinels[OF h1 h2,
      of "\<lambda>refs hyps. (Inr (refs, hyps) :: error + (string list list list \<times> string list list))"
         "[[''a'', ''c''], [''d'']]"]
  show ?thesis by simp
qed

text \<open>
  Claim C5. The method \<^verbatim>\<open>NMT.beam_search\<close> returns the integer 0 on every input: no
  list of hypotheses, and taking the first hypothesis of its result raises
  \<^verbatim>\<open>TypeError\<close>.
\<close>

theorem beam_search_returns_zero:
  "NMT_beam_search self src_sent beam_size max_decoding_time_step = PyInt 0 \<and>
   (\<forall>hs. NMT_beam_search self src_sent beam_size max_decoding_time_step \<noteq> PyHyps hs) \<and>
   first_hyp (NMT_beam_search self src_sent beam_size max_decoding_time_step) = Inl TypeError"
  by (simp add: NMT_beam_search_def first_hyp_def)

lemma NMT_load_call_one_argument: "NMT_load_call disk [a] = Inl TypeError"
  by (simp add: NMT_load_call_def bind_args_def)

lemma NMT_load_call_None: "NMT_load_call disk actuals = Inr v \<Longrightarrow> v = PyNone"
  unfolding NMT_load_call_def
  by (simp split: sum.splits option.splits pyval.splits prod.splits)


lemma decode_cases:
  "decode read_corpus corpus_bleu disk args =
     (case read_corpus (TEST_SOURCE_FILE args) False of
        Inl e \<Rightarrow> ([], Some e)
      | Inr test_data_src \<Rightarrow>
          (case TEST_TARGET_FILE args of
             None \<Rightarrow> ([LoadMessage (MODEL_PATH args)], Some TypeError)
           | Some t \<Rightarrow>
               if t = [] then ([LoadMessage (MODEL_PATH args)], Some TypeError)
               else (case read_corpus t True of
                       Inl e \<Rightarrow> ([], Some e)
                     | Inr d \<Rightarrow> ([LoadMessage (MODEL_PATH args)], Some TypeError))))"
  unfolding decode_def NMT_load_call_one_argument Let_def
  by (simp split: sum.splits option.splits)
text \<open>
  Claim C8. In every invocation of \<^verbatim>\<open>decode\<close> the call \<^verbatim>\<open>NMT.load(MODEL_PATH)\<close> passes
  one argument to a function of two parameters: the path string stands in the place of
  \<^verbatim>\<open>self\<close>, \<^verbatim>\<open>model_path\<close> is missing, and the call raises \<^verbatim>\<open>TypeError\<close>; the method
  returns nothing but \<^verbatim>\<open>None\<close> in any case. So every invocation ends in an exception,
  having produced at most the message that the model is being loaded: no hypothesis, no
  BLEU score, no output file. When the corpora are read without error the exception is this
  \<^verbatim>\<open>TypeError\<close>.
\<close>

theorem decode_fails_at_load:
  "NMT_load_call disk [PyStr (MODEL_PATH args)] = Inl TypeError \<and>
   map_of (zip [''self'', ''model_path''] [PyStr (MODEL_PATH args) :: 'p pyval]) ''self''
     = Some (PyStr (MODEL_PATH args)) \<and>
   map_of (zip [''self'', ''model_path''] [PyStr (MODEL_PATH args) :: 'p pyval]) ''model_path''
     = None \<and>
   (\<forall>actuals v. NMT_load_call disk actuals = Inr v \<longrightarrow> v = PyNone) \<and>
   (\<exists>e. snd (decode read_corpus corpus_bleu disk args) = Some e) \<and>
   (\<forall>x\<in>set (fst (decode read_corpus corpus_bleu disk args)). x = LoadMessage (MODEL_PATH args)) \<and>
   (\<forall>src. read_corpus (TEST_SOURCE_FILE args) False = Inr src \<and>
          (\<forall>t. TEST_TARGET_FILE args = Some t \<and> t \<noteq> [] \<longrightarrow> (\<exists>d. read_corpus t True = Inr d))
      \<longrightarrow> decode read_corpus corpus_bleu disk args
            = ([LoadMessage (MODEL_PATH args)], Some TypeError))"
proof (intro conjI)
  show "NMT_load_call disk [PyStr (MODEL_PATH args)] = Inl TypeError"
    by (rule NMT_load_call_one_argument)
  show "\<forall>actuals v. NMT_load_call disk actuals = Inr v \<longrightarrow> v = PyNone"
    using NMT_load_call_None by blast
  show "\<exists>e. snd (decode read_corpus corpus_bleu disk args) = Some e"
    unfolding decode_cases by (simp split: sum.splits option.splits)
  show "\<forall>x\<in>set (fst (decode read_corpus corpus_bleu disk args)). x = LoadMessage (MODEL_PATH args)"
    unfolding decode_cases by (simp split: sum.splits option.splits)
  show "\<forall>src. read_corpus (TEST_SOURCE_FILE args) False = Inr src \<and>
          (\<forall>t. TEST_TARGET_FILE args = Some t \<and> t \<noteq> [] \<longrightarrow> (\<exists>d. read_corpus t True = Inr d))
      \<longrightarrow> decode read_corpus corpus_bleu disk args
            = ([LoadMessage (MODEL_PATH args)], Some TypeError)"
    unfolding decode_cases by (auto split: sum.splits option.splits)
qed simp_all

text \<open>Claim C8 with readable corpora and a checkpoint on disk.\<close>

theorem decode_fails_at_load_witness:
  "decode (\<lambda>path tgt. Inr [[''ein'', ''Haus'']])
          (\<lambda>refs hyps. (Inr 1 :: error + real))
          [''model-encoder'' \<mapsto> (1::nat), ''model-decoder'' \<mapsto> 2]
          \<lparr>MODEL_PATH = ''model'', TEST_SOURCE_FILE = ''test.de'',
           TEST_TARGET_FILE = Some ''test.en'', OUTPUT_FILE = ''out.txt'',
           arg_beam_size = 5, arg_max_decoding_time_step = 70\<rparr>
     = ([LoadMessage ''model''], Some TypeError)"
proof -
  let ?rc = "\<lambda>(path::string) (tgt::bool). (Inr [[''ein'', ''Haus'']] :: error + string list list)"
  let ?args = "\<lparr>MODEL_PATH = ''model'', TEST_SOURCE_FILE = ''test.de'',
           TEST_TARGET_FILE = Some ''test.en'', OUTPUT_FILE = ''out.txt'',
           arg_beam_size = 5, arg_max_decoding_time_step = 70\<rparr>"
  note t = decode_fails_at_load[where read_corpus = ?rc and args = ?args
      and disk = "[''model-encoder'' \<mapsto> (1::nat), ''model-decoder'' \<mapsto> 2]"
      and corpus_bleu = "\<lambda>refs hyps. (Inr 1 :: error + real)"]
  note last = t[THEN conjunct2, THEN conjunct2, THEN conjunct2, THEN conjunct2, THEN conjunct2,
      THEN conjunct2, rule_format, of "[[''ein'', ''Haus'']]"]
  have h: "?rc (TEST_SOURCE_FILE ?args) False = Inr [[''ein'', ''Haus'']] \<and>
        (\<forall>t. TEST_TARGET_FILE ?args = Some t \<and> t \<noteq> [] \<longrightarrow> (\<exists>d. ?rc t True = Inr d))"
    by simp
  show ?thesis using last[OF h] by simp
qed

section \<open>Properties of \<^verbatim>\<open>evaluate_ppl\<close>\<close>

lemma succeeds_Inr: "succeeds r \<Longrightarrow> r = Inr (projr r)"
  by (cases r) (simp_all add: succeeds_def)

lemma py_getitem_nth: "i < length xs \<Longrightarrow> py_getitem xs (int i) = Inr (xs ! i)"
  by (simp add: py_getitem_def Let_def)

lemma py_setitem_update:
  "0 \<le> p \<Longrightarrow> p < int (length xs) \<Longrightarrow> py_setitem xs p v = Inr (xs[nat p := v])"
  by (simp add: py_setitem_def Let_def)

lemma hyp_loop_inv:
  assumes "\<forall>sent\<in>set rows. succeeds (sent_words id2word sent)"
    and "index + length rows \<le> length oi"
    and "\<forall>i < length oi. 0 \<le> oi ! i \<and> oi ! i < int (length ordered)"
    and "distinct oi"
  shows "\<exists>ordered'.
           hyp_loop id2word oi index rows hyps ordered
             = Inr (hyps @ map (\<lambda>sent. projr (sent_words id2word sent)) rows, ordered') \<and>
           length ordered' = length ordered \<and>
           (\<forall>i < length rows.
              ordered' ! nat (oi ! (index + i)) = Some (projr (sent_words id2word (rows ! i)))) \<and>
           (\<forall>j. (\<forall>i < length rows. j \<noteq> nat (oi ! (index + i))) \<longrightarrow> ordered' ! j = ordered ! j)"
  using assms
proof (induction rows arbitrary: index hyps ordered)
  case Nil
  then show ?case by simp
next
  case (Cons sent rest)
  obtain ws where w: "sent_words id2word sent = Inr ws"
    using Cons.prems(1) succeeds_Inr[of "sent_words id2word sent"] by auto
  have pw: "projr (sent_words id2word sent) = ws" by (simp add: w)
  let ?p = "oi ! index"
  let ?ord1 = "ordered[nat ?p := Some ws]"
  have idx: "index < length oi" using Cons.prems(2) by simp
  have rng: "0 \<le> ?p" "?p < int (length ordered)" using Cons.prems(3) idx by auto
  have g: "py_getitem oi (int index) = Inr ?p" by (rule py_getitem_nth[OF idx])
  have u: "py_setitem ordered ?p (Some ws) = Inr ?ord1"
    by (rule py_setitem_update[OF rng])
  have step: "hyp_loop id2word oi index (sent # rest) hyps ordered
      = hyp_loop id2word oi (Suc index) rest (hyps @ [ws]) ?ord1"
    by (simp add: w g u)
  have p1: "\<forall>sent\<in>set rest. succeeds (sent_words id2word sent)" using Cons.prems(1) by simp
  have p2: "Suc index + length rest \<le> length oi" using Cons.prems(2) by simp
  have p3: "\<forall>i < length oi. 0 \<le> oi ! i \<and> oi ! i < int (length ?ord1)"
    using Cons.prems(3) by simp
  from Cons.IH[OF p1 p2 p3 Cons.prems(4), of "hyps @ [ws]"]
  obtain ordered' where
    r: "hyp_loop id2word oi (Suc index) rest (hyps @ [ws]) ?ord1
          = Inr ((hyps @ [ws]) @ map (\<lambda>sent. projr (sent_words id2word sent)) rest, ordered')"
    and len: "length ordered' = length ?ord1"
    and pos: "\<forall>i < length rest.
              ordered' ! nat (oi ! (Suc index + i)) = Some (projr (sent_words id2word (rest ! i)))"
    and frame: "\<forall>j. (\<forall>i < length rest. j \<noteq> nat (oi ! (Suc index + i))) \<longrightarrow> ordered' ! j = ?ord1 ! j"
    by blast
  have other: "nat ?p \<noteq> nat (oi ! (Suc index + i))" if "i < length rest" for i
  proof -
    have k: "Suc index + i < length oi" using that p2 by simp
    have "oi ! index \<noteq> oi ! (Suc index + i)"
      using Cons.prems(4) idx k by (simp add: nth_eq_iff_index_eq)
    moreover have "0 \<le> oi ! (Suc index + i)" using Cons.prems(3) k by blast
    ultimately show ?thesis using rng(1) by simp
  qed
  have here: "ordered' ! nat ?p = Some ws"
  proof -
    have "ordered' ! nat ?p = ?ord1 ! nat ?p" using frame other by blast
    also have "\<dots> = Some ws" using rng by simp
    finally show ?thesis .
  qed
  have c1: "hyp_loop id2word oi index (sent # rest) hyps ordered
      = Inr (hyps @ map (\<lambda>sent. projr (sent_words id2word sent)) (sent # rest), ordered')"
    using step r by (simp add: pw)
  have c2: "length ordered' = length ordered" using len by simp
  have c3: "\<forall>i < length (sent # rest).
              ordered' ! nat (oi ! (index + i)) = Some (projr (sent_words id2word ((sent # rest) ! i)))"
  proof (intro allI impI)
    fix i assume "i < length (sent # rest)"
    then show "ordered' ! nat (oi ! (index + i)) = Some (projr (sent_words id2word ((sent # rest) ! i)))"
      using here pos by (cases i) (auto simp: pw)
  qed
  have c4: "\<forall>j. (\<forall>i < length (sent # rest). j \<noteq> nat (oi ! (index + i))) \<longrightarrow> ordered' ! j = ordered ! j"
  proof (intro allI impI)
    fix j assume a: "\<forall>i < length (sent # rest). j \<noteq> nat (oi ! (index + i))"
    have j0: "j \<noteq> nat ?p" using a[rule_format, of 0] by simp
    have "\<forall>i < length rest. j \<noteq> nat (oi ! (Suc index + i))"
      using a by (metis Suc_less_eq length_Cons add_Suc_right add_Suc)
    then have "ordered' ! j = ?ord1 ! j" using frame by blast
    then show "ordered' ! j = ordered ! j" using j0 by simp
  qed
  show ?case using c1 c2 c3 c4 by blast
qed


lemma hyp_loop_batch:
  assumes len: "length symbols = n"
    and ok: "\<forall>sent\<in>set symbols. succeeds (sent_words id2word sent)"
    and loi: "length oi = n"
    and perm: "set oi = int ` {0..<n}"
  shows "\<exists>hs. hyp_loop id2word oi 0 symbols hyps (replicate n None)
               = Inr (hyps @ map (\<lambda>sent. projr (sent_words id2word sent)) symbols, map Some hs) \<and>
              length hs = n \<and>
              (\<forall>i < n. sent_words id2word (symbols ! i) = Inr (hs ! nat (oi ! i)))"
proof -
  have "card (set oi) = n" unfolding perm by (simp add: card_image)
  then have dist: "distinct oi" using loi by (simp add: card_distinct)
  have rng: "\<forall>i < length oi. 0 \<le> oi ! i \<and> oi ! i < int (length (replicate n (None :: string list option)))"
  proof (intro allI impI)
    fix i assume "i < length oi"
    then have "oi ! i \<in> int ` {0..<n}" using perm nth_mem by blast
    then show "0 \<le> oi ! i \<and> oi ! i < int (length (replicate n (None :: string list option)))"
      by auto
  qed
  have b: "0 + length symbols \<le> length oi" using len loi by simp
  from hyp_loop_inv[OF ok b rng dist, of hyps]
  obtain ordered' where
    r: "hyp_loop id2word oi 0 symbols hyps (replicate n None)
          = Inr (hyps @ map (\<lambda>sent. projr (sent_words id2word sent)) symbols, ordered')"
    and l: "length ordered' = n"
    and pos: "\<forall>i < length symbols.
              ordered' ! nat (oi ! i) = Some (projr (sent_words id2word (symbols ! i)))"
    by auto
  have some: "ordered' ! j = Some (the (ordered' ! j))" if j: "j < n" for j
  proof -
    have "int j \<in> set oi" using j perm by simp
    then obtain i where i: "i < length oi" "oi ! i = int j" by (auto simp: in_set_conv_nth)
    then have "ordered' ! nat (oi ! i) = Some (projr (sent_words id2word (symbols ! i)))"
      using pos[rule_format, of i] len loi by simp
    then have "ordered' ! j = Some (projr (sent_words id2word (symbols ! i)))"
      unfolding i(2) by simp
    then show ?thesis by simp
  qed
  have m: "map Some (map the ordered') = ordered'"
    by (rule nth_equalityI) (simp_all add: l some[symmetric])
  have w: "sent_words id2word (symbols ! i) = Inr (map the ordered' ! nat (oi ! i))" if i: "i < n" for i
  proof -
    have s: "succeeds (sent_words id2word (symbols ! i))" using ok i len by simp
    have "oi ! i \<in> int ` {0..<n}" using perm nth_mem[of i oi] i loi by simp
    then have k: "nat (oi ! i) < n" by auto
    have "ordered' ! nat (oi ! i) = Some (projr (sent_words id2word (symbols ! i)))"
      using pos i len by simp
    then have "map the ordered' ! nat (oi ! i) = projr (sent_words id2word (symbols ! i))"
      using k l by simp
    then show ?thesis using succeeds_Inr[OF s] by simp
  qed
  have r': "hyp_loop id2word oi 0 symbols hyps (replicate n None)
          = Inr (hyps @ map (\<lambda>sent. projr (sent_words id2word sent)) symbols,
                 map Some (map the ordered'))"
    unfolding m by (rule r)
  have l': "length (map the ordered') = n" using l by simp
  show ?thesis using r' l' w by blast
qed

lemma well_formed_batchD:
  assumes "well_formed_batch env (src_sents, tgt_sents, orig_indices)"
  shows "\<exists>padded. sent_padding (src_words2indices env src_sents) (tgt_words2indices env tgt_sents)
            = Inr padded \<and>
           batch_forward env (src_sents, tgt_sents, orig_indices) = encode_decode_without_bp env padded"
    and "length (snd (batch_forward env (src_sents, tgt_sents, orig_indices))) = length tgt_sents"
    and "\<forall>sent\<in>set (snd (batch_forward env (src_sents, tgt_sents, orig_indices))).
           succeeds (sent_words (tgt_id2word env) sent)"
    and "length orig_indices = length tgt_sents"
    and "set orig_indices = int ` {0..<length tgt_sents}"
  using assms
  by (auto simp: well_formed_batch_def Let_def succeeds_def batch_forward_def split: sum.splits)

lemma batch_loop_wf:
  assumes "\<forall>b\<in>set batches. well_formed_batch env b"
  shows "\<exists>Hs. length Hs = length batches \<and>
           (\<forall>k < length batches. restored env (batches ! k) (Hs ! k)) \<and>
           length (concat Hs) = length (concat (map (\<lambda>b. fst (snd b)) batches)) \<and>
           batch_loop env batches st =
             Inr \<lparr>ref_corpus = ref_corpus st @ concat (map (\<lambda>b. fst (snd b)) batches),
                  hyp_corpus = hyp_corpus st @
                    concat (map (\<lambda>b. map (\<lambda>sent. projr (sent_words (tgt_id2word env) sent))
                                       (snd (batch_forward env b))) batches),
                  cum_loss = cum_loss st + sum_list (map (\<lambda>b. fst (batch_forward env b)) batches),
                  batch_count = batch_count st + length batches,
                  hyp_corpus_ordered = hyp_corpus_ordered st @ map Some (concat Hs)\<rparr>"
  using assms
proof (induction batches arbitrary: st)
  case Nil
  show ?case by (rule exI[of _ "[]"]) simp
next
  case (Cons b batches)
  obtain src_sents tgt_sents orig_indices where b: "b = (src_sents, tgt_sents, orig_indices)"
    by (cases b)
  have wf: "well_formed_batch env (src_sents, tgt_sents, orig_indices)"
    using Cons.prems b by simp
  from well_formed_batchD(1)[OF wf] obtain padded where
    pad: "sent_padding (src_words2indices env src_sents) (tgt_words2indices env tgt_sents) = Inr padded"
    and fwd: "batch_forward env b = encode_decode_without_bp env padded"
    using b by blast
  let ?symbols = "snd (batch_forward env b)"
  have n: "length ?symbols = length tgt_sents"
    and ok: "\<forall>sent\<in>set ?symbols. succeeds (sent_words (tgt_id2word env) sent)"
    and loi: "length orig_indices = length tgt_sents"
    and perm: "set orig_indices = int ` {0..<length tgt_sents}"
    using well_formed_batchD(2-5)[OF wf] b by simp_all
  from hyp_loop_batch[OF n ok loi perm, of "hyp_corpus st"] obtain hs where
    hl: "hyp_loop (tgt_id2word env) orig_indices 0 ?symbols (hyp_corpus st)
           (replicate (length tgt_sents) None)
         = Inr (hyp_corpus st @ map (\<lambda>sent. projr (sent_words (tgt_id2word env) sent)) ?symbols,
                map Some hs)"
    and lhs: "length hs = length tgt_sents"
    and rs: "\<forall>i < length tgt_sents.
               sent_words (tgt_id2word env) (?symbols ! i) = Inr (hs ! nat (orig_indices ! i))"
    by blast
  let ?st1 = "\<lparr>ref_corpus = ref_corpus st @ tgt_sents,
              hyp_corpus = hyp_corpus st @ map (\<lambda>sent. projr (sent_words (tgt_id2word env) sent)) ?symbols,
              cum_loss = cum_loss st + fst (batch_forward env b),
              batch_count = batch_count st + 1,
              hyp_corpus_ordered = hyp_corpus_ordered st @ map Some hs\<rparr>"
  have step: "batch_loop env (b # batches) st = batch_loop env batches ?st1"
    unfolding b batch_loop.simps Let_def pad sum.case fwd[unfolded b, symmetric]
    using hl n by (simp add: b)
  have "\<forall>b\<in>set batches. well_formed_batch env b" using Cons.prems by simp
  from Cons.IH[OF this, of ?st1] obtain Hs where
    l: "length Hs = length batches"
    and r: "\<forall>k < length batches. restored env (batches ! k) (Hs ! k)"
    and c: "length (concat Hs) = length (concat (map (\<lambda>b. fst (snd b)) batches))"
    and e: "batch_loop env batches ?st1 =
             Inr \<lparr>ref_corpus = ref_corpus ?st1 @ concat (map (\<lambda>b. fst (snd b)) batches),
                  hyp_corpus = hyp_corpus ?st1 @
                    concat (map (\<lambda>b. map (\<lambda>sent. projr (sent_words (tgt_id2word env) sent))
                                       (snd (batch_forward env b))) batches),
                  cum_loss = cum_loss ?st1 + sum_list (map (\<lambda>b. fst (batch_forward env b)) batches),
                  batch_count = batch_count ?st1 + length batches,
                  hyp_corpus_ordered = hyp_corpus_ordered ?st1 @ map Some (concat Hs)\<rparr>"
    by blast
  have rb: "restored env b hs"
    unfolding restored_def using lhs rs b by simp
  have c1: "length (hs # Hs) = length (b # batches)" using l by simp
  have c2: "\<forall>k < length (b # batches). restored env ((b # batches) ! k) ((hs # Hs) ! k)"
  proof (intro allI impI)
    fix k assume "k < length (b # batches)"
    then show "restored env ((b # batches) ! k) ((hs # Hs) ! k)"
      using rb r by (cases k) auto
  qed
  have c3: "length (concat (hs # Hs)) = length (concat (map (\<lambda>b. fst (snd b)) (b # batches)))"
    using c lhs b by simp
  have c4: "batch_loop env (b # batches) st =
             Inr \<lparr>ref_corpus = ref_corpus st @ concat (map (\<lambda>b. fst (snd b)) (b # batches)),
                  hyp_corpus = hyp_corpus st @
                    concat (map (\<lambda>b. map (\<lambda>sent. projr (sent_words (tgt_id2word env) sent))
                                       (snd (batch_forward env b))) (b # batches)),
                  cum_loss = cum_loss st + sum_list (map (\<lambda>b. fst (batch_forward env b)) (b # batches)),
                  batch_count = batch_count st + length (b # batches),
                  hyp_corpus_ordered = hyp_corpus_ordered st @ map Some (concat (hs # Hs))\<rparr>"
    unfolding step e using b by (simp add: add.assoc)
  show ?case using c1 c2 c3 c4 by blast
qed

lemma write_lines_all:
  assumes "length refs = length hs"
  shows "write_lines content (zip refs (map Some hs))
           = (content @ concat (map (\<lambda>h. py_join '' '' h @ [CHR 0x0A]) hs), None)"
  using assms
  by (induction refs hs arbitrary: content rule: list_induct2) simp_all


text \<open>
  Claim C10. Let the batches that \<^verbatim>\<open>batch_iter\<close> yields for the dev data be well formed.
  Then \<^verbatim>\<open>evaluate_ppl\<close> leaves every text file as it was, except that \<^verbatim>\<open>decode.txt\<close>
  holds its earlier content (nothing, when it did not exist) followed by one line for each
  dev sentence: the hypotheses of each batch restored to original order, the batches in
  the order yielded. The loop pairs these lines by position with the references, which
  stay in the order of the batches; in that same order the hypotheses go to the BLEU
  computation. When that computation succeeds, the value returned is the sum of the
  losses of the batches divided by the number of batches (with no batch at all the
  division raises).
\<close>

theorem evaluate_ppl_appends_to_decode_txt:
  assumes wf: "\<forall>b\<in>set (batch_iter env dev_data batch_size). well_formed_batch env b"
  shows "\<exists>Hs st.
     length Hs = length (batch_iter env dev_data batch_size) \<and>
     (\<forall>k < length (batch_iter env dev_data batch_size).
        restored env (batch_iter env dev_data batch_size ! k) (Hs ! k)) \<and>
     length (concat Hs) = length (concat (map (\<lambda>b. fst (snd b)) (batch_iter env dev_data batch_size))) \<and>
     batch_loop env (batch_iter env dev_data batch_size)
        \<lparr>ref_corpus = [], hyp_corpus = [], cum_loss = 0, batch_count = 0,
         hyp_corpus_ordered = []\<rparr> = Inr st \<and>
     ref_corpus st = concat (map (\<lambda>b. fst (snd b)) (batch_iter env dev_data batch_size)) \<and>
     hyp_corpus_ordered st = map Some (concat Hs) \<and>
     hyp_corpus st =
       concat (map (\<lambda>b. map (\<lambda>sent. projr (sent_words (tgt_id2word env) sent))
                          (snd (batch_forward env b))) (batch_iter env dev_data batch_size)) \<and>
     snd (evaluate_ppl env texts dev_data batch_size) =
       texts(''decode.txt'' \<mapsto>
         (case texts ''decode.txt'' of None \<Rightarrow> [] | Some c \<Rightarrow> c) @
         concat (map (\<lambda>h. py_join '' '' h @ [CHR 0x0A]) (concat Hs))) \<and>
     fst (evaluate_ppl env texts dev_data batch_size) =
       (case compute_corpus_level_bleu_score (nltk_corpus_bleu env) (ref_corpus st) (hyp_corpus st) of
          Inl e \<Rightarrow> Inl e
        | Inr bleu \<Rightarrow>
            if batch_iter env dev_data batch_size = [] then Inl ZeroDivisionError
            else Inr (sum_list (map (\<lambda>b. fst (batch_forward env b)) (batch_iter env dev_data batch_size))
                        / real (length (batch_iter env dev_data batch_size))))"
proof -
  let ?batches = "batch_iter env dev_data batch_size"
  let ?init = "\<lparr>ref_corpus = [], hyp_corpus = [], cum_loss = 0, batch_count = 0,
         hyp_corpus_ordered = []\<rparr>"
  let ?line = "\<lambda>h. py_join '' '' h @ [CHR 0x0A]"
  from batch_loop_wf[OF wf, of ?init] obtain Hs where
    l: "length Hs = length ?batches"
    and r: "\<forall>k < length ?batches. restored env (?batches ! k) (Hs ! k)"
    and c: "length (concat Hs) = length (concat (map (\<lambda>b. fst (snd b)) ?batches))"
    and e: "batch_loop env ?batches ?init =
             Inr \<lparr>ref_corpus = ref_corpus ?init @ concat (map (\<lambda>b. fst (snd b)) ?batches),
                  hyp_corpus = hyp_corpus ?init @
                    concat (map (\<lambda>b. map (\<lambda>sent. projr (sent_words (tgt_id2word env) sent))
                                       (snd (batch_forward env b))) ?batches),
                  cum_loss = cum_loss ?init + sum_list (map (\<lambda>b. fst (batch_forward env b)) ?batches),
                  batch_count = batch_count ?init + length ?batches,
                  hyp_corpus_ordered = hyp_corpus_ordered ?init @ map Some (concat Hs)\<rparr>"
    by blast
  define st where "st = \<lparr>ref_corpus = concat (map (\<lambda>b. fst (snd b)) ?batches),
                  hyp_corpus =
                    concat (map (\<lambda>b. map (\<lambda>sent. projr (sent_words (tgt_id2word env) sent))
                                       (snd (batch_forward env b))) ?batches),
                  cum_loss = sum_list (map (\<lambda>b. fst (batch_forward env b)) ?batches),
                  batch_count = length ?batches,
                  hyp_corpus_ordered = map Some (concat Hs)\<rparr>"
  have e': "batch_loop env ?batches ?init = Inr st"
    unfolding e st_def by simp
  have f1: "ref_corpus st = concat (map (\<lambda>b. fst (snd b)) ?batches)"
    and f2: "hyp_corpus_ordered st = map Some (concat Hs)"
    and f3: "hyp_corpus st = concat (map (\<lambda>b. map (\<lambda>sent. projr (sent_words (tgt_id2word env) sent))
                                       (snd (batch_forward env b))) ?batches)"
    and f4: "cum_loss st = sum_list (map (\<lambda>b. fst (batch_forward env b)) ?batches)"
    and f5: "batch_count st = length ?batches"
    by (simp_all add: st_def)
  have wl: "write_lines content (zip (ref_corpus st) (hyp_corpus_ordered st))
      = (content @ concat (map ?line (concat Hs)), None)" for content
    unfolding f1 f2 by (rule write_lines_all) (simp add: c)
  have s: "snd (evaluate_ppl env texts dev_data batch_size) =
       texts(''decode.txt'' \<mapsto>
         (case texts ''decode.txt'' of None \<Rightarrow> [] | Some c \<Rightarrow> c) @ concat (map ?line (concat Hs)))"
    unfolding evaluate_ppl_def e' sum.case Let_def wl
    by (simp split: sum.splits)
  have f: "fst (evaluate_ppl env texts dev_data batch_size) =
       (case compute_corpus_level_bleu_score (nltk_corpus_bleu env) (ref_corpus st) (hyp_corpus st) of
          Inl e \<Rightarrow> Inl e
        | Inr bleu \<Rightarrow>
            if ?batches = [] then Inl ZeroDivisionError
            else Inr (sum_list (map (\<lambda>b. fst (batch_forward env b)) ?batches)
                        / real (length ?batches)))"
    unfolding evaluate_ppl_def e' sum.case Let_def wl
    by (simp add: f4 f5 split: sum.splits)
  show ?thesis using l r c e' f1 f2 f3 s f by blast
qed


text \<open>
  Claim C10 on one batch of two sentence pairs whose original indices are 1 and 0, with
  \<^verbatim>\<open>decode.txt\<close> already holding a line: the hypothesis of the second row comes first.
\<close>

theorem evaluate_ppl_appends_to_decode_txt_witness:
  "snd (evaluate_ppl
      \<lparr>batch_iter = (\<lambda>d n. [([[''x'', ''y''], [''z'']],
                              [[''<s>'', ''a'', ''b'', ''</s>''], [''<s>'', ''c'', ''</s>'']],
                              [1, 0])]),
       src_words2indices = map (map (\<lambda>w. 4)),
       tgt_words2indices = map (map (\<lambda>w. 5)),
       encode_decode_without_bp = (\<lambda>p. (3, [[7, 8, 2, 0], [9, 2, 0, 0]])),
       tgt_id2word = [7 \<mapsto> ''a'', 8 \<mapsto> ''b'', 9 \<mapsto> ''c''],
       nltk_corpus_bleu = (\<lambda>r h. Inr 1)\<rparr>
      [''decode.txt'' \<mapsto> ''old'' @ [CHR 0x0A]] () 128) ''decode.txt''
    = Some (''old'' @ [CHR 0x0A] @ ''c'' @ [CHR 0x0A] @ ''a b'' @ [CHR 0x0A])"
proof -
  let ?b = "([[''x'', ''y''], [''z'']],
             [[''<s>'', ''a'', ''b'', ''</s>''], [''<s>'', ''c'', ''</s>'']],
             [1, 0 :: int])"
  let ?env = "\<lparr>batch_iter = (\<lambda>(d::unit) (n::nat). [?b]),
       src_words2indices = map (map (\<lambda>w. 4)),
       tgt_words2indices = map (map (\<lambda>w. 5)),
       encode_decode_without_bp = (\<lambda>p. (3, [[7, 8, 2, 0], [9, 2, 0, 0]])),
       tgt_id2word = [7 \<mapsto> ''a'', 8 \<mapsto> ''b'', 9 \<mapsto> ''c''],
       nltk_corpus_bleu = (\<lambda>r h. Inr 1)\<rparr>"
  let ?texts = "[''decode.txt'' \<mapsto> ''old'' @ [CHR 0x0A]]"
  have pad: "sent_padding [[4, 4], [4]] [[5, 5, 5, 5], [5, 5, 5]] =
      Inr ([[4, 4], [4, 0]], [2, 1], [[5, 5, 5, 0], [5, 5, 0, 0]], [[5, 5, 5, 0], [5, 5, 0, 0]], [3, 2])"
    by code_simp
  have bf: "batch_forward ?env ?b = (3, [[7, 8, 2, 0], [9, 2, 0, 0]])"
    by (simp add: batch_forward_def pad)
  have set2: "int ` {0..<Suc (Suc 0)} = {1, 0}"
    by (auto simp: atLeastLessThanSuc)
  have wfb: "well_formed_batch ?env ?b"
    unfolding well_formed_batch_def bf by (simp add: pad succeeds_def set2)
  have wf: "\<forall>b\<in>set (batch_iter ?env () 128). well_formed_batch ?env b"
    using wfb by simp
  from evaluate_ppl_appends_to_decode_txt[OF wf, of ?texts] obtain Hs where
    l: "length Hs = length (batch_iter ?env () 128)"
    and r: "\<forall>k < length (batch_iter ?env () 128). restored ?env (batch_iter ?env () 128 ! k) (Hs ! k)"
    and s: "snd (evaluate_ppl ?env ?texts () 128) =
       ?texts(''decode.txt'' \<mapsto>
         (case ?texts ''decode.txt'' of None \<Rightarrow> [] | Some c \<Rightarrow> c) @
         concat (map (\<lambda>h. py_join '' '' h @ [CHR 0x0A]) (concat Hs)))"
    by blast
  have "length Hs = 1" using l by simp
  then obtain hs where Hs: "Hs = [hs]" by (cases Hs) auto
  have "restored ?env ?b hs" using r[rule_format, of 0] Hs by simp
  then have len: "length hs = 2"
    and rows: "\<forall>i < 2. sent_words [7 \<mapsto> ''a'', 8 \<mapsto> ''b'', 9 \<mapsto> ''c'']
                  ([[7, 8, 2, 0], [9, 2, 0, 0]] ! i) = Inr (hs ! nat ([1, 0] ! i))"
    unfolding restored_def bf by simp_all
  have h1: "hs ! 1 = [''a'', ''b'']" using rows[rule_format, of 0] by simp
  have h0: "hs ! 0 = [''c'']" using rows[rule_format, of 1] by simp
  obtain x y where xy: "hs = [x, y]"
    using len by (auto simp: length_Suc_conv numeral_2_eq_2)
  have hs: "hs = [[''c''], [''a'', ''b'']]" using h0 h1 unfolding xy by simp
  show ?thesis unfolding s Hs hs by simp
qed

end
